theory Spec2Isabelle
  imports Main "HOL-Library.Word"
begin

unbundle bit_operations_syntax

section \<open>The chattr command of the file manager (src/filemanager/chattr.c)\<close>

text \<open>
  The attribute word is an \<^verbatim>\<open>unsigned long\<close> in the source; its width depends on the
  platform (the source's comment counts 32 attribute bits). The model uses \<open>'a word\<close> for
  any width \<open>'a\<close>, so every theorem below holds for 32-bit and for 64-bit words alike; the
  concrete examples are evaluated on \<open>32 word\<close>.
\<close>

subsection \<open>The attribute table \<^verbatim>\<open>check_attr\<close>\<close>

text \<open>
  One entry of the static table \<^verbatim>\<open>check_attr[]\<close>: the flag, its letter, its label (the
  field \<^verbatim>\<open>text\<close> of the source), the \<^verbatim>\<open>selected\<close> mark and the checkbox. The source keeps a pointer to a checkbox widget and
  reads its \<^verbatim>\<open>state\<close>; the record keeps that state (\<open>check\<close>). The widget exists only
  for modifiable attributes, and the source reads it only under that guard.
\<close>

record 'w check_attr_t =
  flags :: 'w
  attr :: char
  label :: string
  selected :: bool
  check :: bool

text \<open>
  The table as the source lists it, with the flag values of the source's comment, nothing
  selected and no box ticked. The entries under \<^verbatim>\<open>#ifdef\<close> are present, but for the one
  of \<^verbatim>\<open>EXT4_PROJINHERIT_FL\<close>: its line in the source lacks a comma, so the file compiles
  only where that macro is not defined, and no table at run time has the entry.
\<close>

definition mk_attr :: "'a::len word \<Rightarrow> char \<Rightarrow> string \<Rightarrow> 'a word check_attr_t" where
  "mk_attr f c t = \<lparr>flags = f, attr = c, label = t, selected = False, check = False\<rparr>"

definition check_attr_table :: "'a::len word check_attr_t list" where
  "check_attr_table =
    [ mk_attr 0x00000001 (CHR ''s'') ''Secure deletion'',
      mk_attr 0x00000002 (CHR ''u'') ''Undelete'',
      mk_attr 0x00000008 (CHR ''S'') ''Synchronous updates'',
      mk_attr 0x00010000 (CHR ''D'') ''Synchronous directory updates'',
      mk_attr 0x00000010 (CHR ''i'') ''Immutable'',
      mk_attr 0x00000020 (CHR ''a'') ''Append only'',
      mk_attr 0x00000040 (CHR ''d'') ''No dump'',
      mk_attr 0x00000080 (CHR ''A'') ''No update atime'',
      mk_attr 0x00000004 (CHR ''c'') ''Compress'',
      mk_attr 0x00000200 (CHR ''B'') ''Compressed clusters'',
      mk_attr 0x00000100 (CHR ''Z'') ''Compressed dirty file'',
      mk_attr 0x00000400 (CHR ''X'') ''Compression raw access'',
      mk_attr 0x00000800 (CHR ''E'') ''Encrypted inode'',
      mk_attr 0x00004000 (CHR ''j'') ''Journaled data'',
      mk_attr 0x00001000 (CHR ''I'') ''Indexed directory'',
      mk_attr 0x00008000 (CHR ''t'') ''No tail merging'',
      mk_attr 0x00020000 (CHR ''T'') ''Top of directory hierarchies'',
      mk_attr 0x00080000 (CHR ''e'') ''Inode uses extents'',
      mk_attr 0x00040000 (CHR ''h'') ''Huge_file'',
      mk_attr 0x00800000 (CHR ''C'') ''No COW'',
      mk_attr 0x40000000 (CHR ''F'') ''Casefolded file'',
      mk_attr 0x10000000 (CHR ''N'') ''Inode has inline data'',
      mk_attr 0x00100000 (CHR ''V'') ''Verity protected inode'' ]"

text \<open>
  \<^verbatim>\<open>chattr_is_modifiable\<close>. The constant \<^verbatim>\<open>EXT2_FL_USER_MODIFIABLE\<close> comes from a header
  of the ext2 library that is not part of the sources; it is the parameter \<open>um\<close>. The
  source indexes the table; the model is handed the entry.
\<close>

definition chattr_is_modifiable :: "'a::len word \<Rightarrow> 'a word check_attr_t \<Rightarrow> bool" where
  "chattr_is_modifiable um d \<longleftrightarrow> (flags d AND um) \<noteq> 0"

subsection \<open>The buttons and the masks built in \<^verbatim>\<open>chattr_cmd\<close>\<close>

text \<open>
  The values \<^verbatim>\<open>dlg_run\<close> can return: the six buttons of \<^verbatim>\<open>chattr_but\<close>, and anything
  else (the \<^verbatim>\<open>default\<close> branch of the switch).
\<close>

datatype button = B_CANCEL | B_ENTER | B_SETALL | B_MARKED | B_SETMRK | B_CLRMRK | B_OTHER

text \<open>
  The bodies of the three \<^verbatim>\<open>for\<close> loops over the table. The accumulator is the pair
  \<open>(and_mask, or_mask)\<close>.
\<close>

definition setall_body ::
  "'a::len word \<Rightarrow> button \<Rightarrow> 'a word check_attr_t \<Rightarrow> 'a word \<times> 'a word \<Rightarrow> 'a word \<times> 'a word" where
  "setall_body um result d = (\<lambda>(am, om).
     if chattr_is_modifiable um d \<and> (selected d \<or> result = B_SETALL) then
       (if check d then (am, om OR flags d) else (am AND NOT (flags d), om))
     else (am, om))"

definition setmrk_body ::
  "'a::len word \<Rightarrow> 'a word check_attr_t \<Rightarrow> 'a word \<times> 'a word \<Rightarrow> 'a word \<times> 'a word" where
  "setmrk_body um d = (\<lambda>(am, om).
     if chattr_is_modifiable um d \<and> selected d then (am, om OR flags d) else (am, om))"

definition clrmrk_body ::
  "'a::len word \<Rightarrow> 'a word check_attr_t \<Rightarrow> 'a word \<times> 'a word \<Rightarrow> 'a word \<times> 'a word" where
  "clrmrk_body um d = (\<lambda>(am, om).
     if chattr_is_modifiable um d \<and> selected d then (am AND NOT (flags d), om) else (am, om))"

text \<open>
  The masks of the four batch branches of the switch: \<^verbatim>\<open>or_mask = 0; and_mask = ~0;\<close>
  and then the loop of the branch. Any other result builds no masks.
\<close>

fun build_masks ::
  "'a::len word \<Rightarrow> button \<Rightarrow> 'a word check_attr_t list \<Rightarrow> ('a word \<times> 'a word) option" where
  "build_masks um B_SETALL tbl = Some (fold (setall_body um B_SETALL) tbl (NOT 0, 0))"
| "build_masks um B_MARKED tbl = Some (fold (setall_body um B_MARKED) tbl (NOT 0, 0))"
| "build_masks um B_SETMRK tbl = Some (fold (setmrk_body um) tbl (NOT 0, 0))"
| "build_masks um B_CLRMRK tbl = Some (fold (clrmrk_body um) tbl (NOT 0, 0))"
| "build_masks um _ tbl = None"

subsection \<open>The panel, the globals and the outside world\<close>

text \<open>
  What the command uses of the panel: the directory list with the mark of each entry,
  and the count of marked entries.
\<close>

record file_entry =
  fname :: string
  f_marked :: bool

record WPanel =
  dir_list :: "file_entry list"
  marked :: int

text \<open>What the command does to the outside world, in order.\<close>

datatype 'w event =
    EvGetflags string "'w option"
  | EvSetflags string 'w bool
  | EvQuery string int
  | EvMessage string

text \<open>
  The file-scope variables of the source (\<open>g_flags\<close> is the variable \<^verbatim>\<open>flags\<close>), the
  current panel, and the outside world. A path is the name of the file
  (\<^verbatim>\<open>vfs_path_from_str\<close> and \<^verbatim>\<open>vfs_path_as_str\<close> only change its representation). The
  calls \<^verbatim>\<open>fgetflags\<close>, \<^verbatim>\<open>fsetflags\<close>, \<^verbatim>\<open>query_dialog\<close> and \<^verbatim>\<open>message\<close> leave the program;
  what they return is an input of the model:
  \<^item> \<open>disk\<close>: the attribute word \<^verbatim>\<open>fgetflags\<close> reads for a file name; a name without an
    entry is a file whose flags cannot be read;
  \<^item> \<open>fsetflags_res\<close>: the outcomes of the calls of \<^verbatim>\<open>fsetflags\<close> to come, in order
    (\<open>True\<close> for a return of 0, \<open>False\<close> for -1);
  \<^item> \<open>query_res\<close>: the values the calls of \<^verbatim>\<open>query_dialog\<close> to come return, in order;
  \<^item> \<open>trace\<close>: the calls made so far.
  A call that finds its list of outcomes empty has no result (\<open>None\<close>).
\<close>

record 'w chattr_state =
  check_attr :: "'w check_attr_t list"
  current_panel :: WPanel
  current_file :: nat
  ignore_all :: bool
  flags_changed :: bool
  and_mask :: 'w
  or_mask :: 'w
  g_flags :: 'w
  disk :: "(string \<times> 'w) list"
  fsetflags_res :: "bool list"
  query_res :: "int list"
  trace :: "'w event list"

definition fgetflags :: "string \<Rightarrow> 'w chattr_state \<Rightarrow> 'w option \<times> 'w chattr_state" where
  "fgetflags p s =
     (map_of (disk s) p, s\<lparr>trace := trace s @ [EvGetflags p (map_of (disk s) p)]\<rparr>)"

definition fsetflags :: "string \<Rightarrow> 'w \<Rightarrow> 'w chattr_state \<Rightarrow> (bool \<times> 'w chattr_state) option" where
  "fsetflags p m s =
     (case fsetflags_res s of
        [] \<Rightarrow> None
      | r # rs \<Rightarrow> Some (r, s\<lparr>fsetflags_res := rs, trace := trace s @ [EvSetflags p m r]\<rparr>))"

definition query_dialog :: "string \<Rightarrow> 'w chattr_state \<Rightarrow> (int \<times> 'w chattr_state) option" where
  "query_dialog p s =
     (case query_res s of
        [] \<Rightarrow> None
      | r # rs \<Rightarrow> Some (r, s\<lparr>query_res := rs, trace := trace s @ [EvQuery p r]\<rparr>))"

definition message :: "string \<Rightarrow> 'w chattr_state \<Rightarrow> 'w chattr_state" where
  "message p s = s\<lparr>trace := trace s @ [EvMessage p]\<rparr>"

text \<open>
  Modelled from the spec: \<^verbatim>\<open>do_file_mark\<close> is defined in the panel's source file, which
  is not among the sources. The specification gives the panel an \<open>unmark\<close> operation and
  a count of marked files that is accurate, and the source's comment says that the call
  decreases \<^verbatim>\<open>current_panel->marked\<close>. So: setting the mark of an entry to the value it
  has changes nothing; otherwise the mark is set and the count follows. An index outside
  the list has no result.
\<close>

definition do_file_mark :: "WPanel \<Rightarrow> nat \<Rightarrow> bool \<Rightarrow> WPanel option" where
  "do_file_mark panel idx mark =
     (if idx < length (dir_list panel) then
        (let e = dir_list panel ! idx in
           if f_marked e = mark then Some panel
           else Some (panel\<lparr>dir_list := (dir_list panel)[idx := e\<lparr>f_marked := mark\<rparr>],
                             marked := (if mark then marked panel + 1 else marked panel - 1)\<rparr>))
      else None)"

subsection \<open>\<^verbatim>\<open>next_file\<close>\<close>

text \<open>
  The \<^verbatim>\<open>while\<close> loop of \<^verbatim>\<open>next_file\<close> on the index alone: the first marked entry at or
  after \<open>i\<close>. The source reads past the end of the list when there is none; the model
  has no result there.
\<close>

function next_marked :: "file_entry list \<Rightarrow> nat \<Rightarrow> nat option" where
  "next_marked l i =
     (if i < length l then
        (if \<not> f_marked (l ! i) then next_marked l (i + 1) else Some i)
      else None)"
  by pat_completeness auto
termination
  by (relation "measure (\<lambda>(l, i). length l - i)") auto

declare next_marked.simps [simp del]

definition next_file :: "'w chattr_state \<Rightarrow> (string \<times> 'w chattr_state) option" where
  "next_file s =
     (case next_marked (dir_list (current_panel s)) (current_file s) of
        None \<Rightarrow> None
      | Some i \<Rightarrow> Some (fname (dir_list (current_panel s) ! i), s\<lparr>current_file := i\<rparr>))"

subsection \<open>\<^verbatim>\<open>try_chattr\<close>, \<^verbatim>\<open>do_chattr\<close> and \<^verbatim>\<open>chattr_apply_mask\<close>\<close>

text \<open>
  \<^verbatim>\<open>try_chattr\<close>: the loop runs while \<^verbatim>\<open>fsetflags\<close> fails and \<^verbatim>\<open>ignore_all\<close> is off.
  Each round asks \<^verbatim>\<open>query_dialog\<close>: 0 (Ignore) and 1 (Ignore all) return \<^verbatim>\<open>TRUE\<close>,
  the latter after setting \<^verbatim>\<open>ignore_all\<close>; 2 (Retry) goes round again; anything else
  (Cancel) returns \<^verbatim>\<open>FALSE\<close>.
\<close>

function try_chattr :: "string \<Rightarrow> 'w \<Rightarrow> 'w chattr_state \<Rightarrow> (bool \<times> 'w chattr_state) option" where
  "try_chattr p m s =
     (case fsetflags p m s of
        None \<Rightarrow> None
      | Some (written, s1) \<Rightarrow>
          if \<not> written \<and> \<not> ignore_all s1 then
            (case query_dialog p s1 of
               None \<Rightarrow> None
             | Some (result, s2) \<Rightarrow>
                 if result = 0 then Some (True, s2)
                 else if result = 1 then Some (True, s2\<lparr>ignore_all := True\<rparr>)
                 else if result = 2 then try_chattr p m s2
                 else Some (False, s2))
          else Some (True, s1))"
  by pat_completeness auto
termination
  by (relation "measure (\<lambda>(p, m, s). length (fsetflags_res s))")
     (auto simp: fsetflags_def query_dialog_def split: list.splits)

declare try_chattr.simps [simp del]

text \<open>\<^verbatim>\<open>m &= and_mask; m |= or_mask;\<close>\<close>

definition mask_flags :: "'a::len word \<Rightarrow> 'a word \<Rightarrow> 'a word \<Rightarrow> 'a word" where
  "mask_flags am om m = (m AND am) OR om"

definition do_chattr ::
  "string \<Rightarrow> 'a::len word \<Rightarrow> 'a word chattr_state \<Rightarrow> (bool \<times> 'a word chattr_state) option" where
  "do_chattr p m s =
     (case try_chattr p (mask_flags (and_mask s) (or_mask s) m) s of
        None \<Rightarrow> None
      | Some (ret, s1) \<Rightarrow>
          (case do_file_mark (current_panel s1) (current_file s1) False of
             None \<Rightarrow> None
           | Some pn \<Rightarrow> Some (ret, s1\<lparr>current_panel := pn\<rparr>)))"

text \<open>
  The body of the \<^verbatim>\<open>do ... while\<close> loop of \<^verbatim>\<open>chattr_apply_mask\<close>: the next marked file,
  its flags read afresh; a failed read unmarks the file and sets \<^verbatim>\<open>ok\<close>; otherwise
  \<^verbatim>\<open>flags\<close> takes the word read and \<^verbatim>\<open>do_chattr\<close> decides \<^verbatim>\<open>ok\<close>.
\<close>

definition apply_mask_body :: "'a::len word chattr_state \<Rightarrow> (bool \<times> 'a word chattr_state) option" where
  "apply_mask_body s =
     (case next_file s of
        None \<Rightarrow> None
      | Some (fn, s1) \<Rightarrow>
          (case fgetflags fn s1 of
             (None, s2) \<Rightarrow>
               (case do_file_mark (current_panel s2) (current_file s2) False of
                  None \<Rightarrow> None
                | Some pn \<Rightarrow> Some (True, s2\<lparr>current_panel := pn\<rparr>))
           | (Some m, s2) \<Rightarrow> do_chattr fn m (s2\<lparr>g_flags := m\<rparr>)))"

text \<open>
  The loop ends because every round unmarks an entry that was marked. The measure is the
  number of marked entries of the list (the loop itself tests the panel's count).
\<close>

definition marked_entries :: "'w chattr_state \<Rightarrow> nat" where
  "marked_entries s = length (filter f_marked (dir_list (current_panel s)))"

lemma next_marked_Some:
  "next_marked l i = Some j \<Longrightarrow> i \<le> j \<and> j < length l \<and> f_marked (l ! j)"
proof (induction l i rule: next_marked.induct)
  case (1 l i)
  from "1.prems" show ?case
    by (subst (asm) next_marked.simps) (auto split: if_splits dest: "1.IH")
qed

lemma unmark_count:
  "i < length l \<Longrightarrow> f_marked (l ! i) \<Longrightarrow>
   length (filter f_marked (l[i := (l ! i)\<lparr>f_marked := False\<rparr>])) < length (filter f_marked l)"
proof (induction l arbitrary: i)
  case Nil
  then show ?case by simp
next
  case (Cons a l)
  then show ?case by (cases i) auto
qed

lemma do_file_mark_count:
  "do_file_mark pn i False = Some pn' \<Longrightarrow> f_marked (dir_list pn ! i) \<Longrightarrow>
   length (filter f_marked (dir_list pn')) < length (filter f_marked (dir_list pn))"
  by (auto simp: do_file_mark_def Let_def unmark_count split: if_splits)

lemma try_chattr_unfold:
  "try_chattr p m s =
     (case fsetflags_res s of
        [] \<Rightarrow> None
      | w # ws \<Rightarrow>
          if w \<or> ignore_all s then
            Some (True, s\<lparr>fsetflags_res := ws, trace := trace s @ [EvSetflags p m w]\<rparr>)
          else
            (case query_res s of
               [] \<Rightarrow> None
             | q # qs \<Rightarrow>
                 if q = 0 then
                   Some (True, s\<lparr>fsetflags_res := ws, query_res := qs,
                                  trace := trace s @ [EvSetflags p m w, EvQuery p q]\<rparr>)
                 else if q = 1 then
                   Some (True, s\<lparr>ignore_all := True, fsetflags_res := ws, query_res := qs,
                                  trace := trace s @ [EvSetflags p m w, EvQuery p q]\<rparr>)
                 else if q = 2 then
                   try_chattr p m (s\<lparr>fsetflags_res := ws, query_res := qs,
                                       trace := trace s @ [EvSetflags p m w, EvQuery p q]\<rparr>)
                 else
                   Some (False, s\<lparr>fsetflags_res := ws, query_res := qs,
                                   trace := trace s @ [EvSetflags p m w, EvQuery p q]\<rparr>)))"
  by (subst try_chattr.simps) (simp add: fsetflags_def query_dialog_def split: list.splits)

lemma try_chattr_frame:
  "try_chattr p m s = Some (r, s') \<Longrightarrow>
     current_panel s' = current_panel s \<and> current_file s' = current_file s \<and>
     and_mask s' = and_mask s \<and> or_mask s' = or_mask s \<and> g_flags s' = g_flags s \<and>
     disk s' = disk s \<and> check_attr s' = check_attr s \<and> flags_changed s' = flags_changed s"
proof (induction "length (fsetflags_res s)" arbitrary: s rule: less_induct)
  case less
  from less.prems show ?case
    apply (subst (asm) try_chattr_unfold)
    apply (simp split: list.splits if_splits)
    apply (auto dest!: less.hyps[rotated])
    done
qed

lemma apply_mask_body_count:
  assumes "apply_mask_body s = Some (ok, s')"
  shows "marked_entries s' < marked_entries s"
proof -
  from assms obtain fn s1 where nf: "next_file s = Some (fn, s1)"
    by (auto simp: apply_mask_body_def split: option.splits)
  then obtain i where i: "next_marked (dir_list (current_panel s)) (current_file s) = Some i"
    and s1: "s1 = s\<lparr>current_file := i\<rparr>"
    by (auto simp: next_file_def split: option.splits)
  from next_marked_Some[OF i] have mk: "f_marked (dir_list (current_panel s) ! i)" by simp
  show ?thesis
  proof (cases "map_of (disk s) fn")
    case None
    with assms nf s1 obtain pn where "do_file_mark (current_panel s) i False = Some pn"
      and "s' = (s1\<lparr>trace := trace s1 @ [EvGetflags fn None]\<rparr>)\<lparr>current_panel := pn\<rparr>"
      by (auto simp: apply_mask_body_def fgetflags_def split: option.splits)
    with mk show ?thesis
      by (auto simp: marked_entries_def dest: do_file_mark_count)
  next
    case (Some m)
    define s2 where "s2 = s1\<lparr>trace := trace s1 @ [EvGetflags fn (Some m)], g_flags := m\<rparr>"
    from assms nf Some s1 have dc: "do_chattr fn m s2 = Some (ok, s')"
      by (auto simp: apply_mask_body_def fgetflags_def s2_def split: option.splits)
    then obtain s3 pn
      where tc: "try_chattr fn (mask_flags (and_mask s2) (or_mask s2) m) s2 = Some (ok, s3)"
        and fm: "do_file_mark (current_panel s3) (current_file s3) False = Some pn"
        and s': "s' = s3\<lparr>current_panel := pn\<rparr>"
      by (auto simp: do_chattr_def split: option.splits)
    from try_chattr_frame[OF tc] have "current_panel s3 = current_panel s" "current_file s3 = i"
      by (simp_all add: s2_def s1)
    with fm mk s' show ?thesis
      by (auto simp: marked_entries_def dest: do_file_mark_count)
  qed
qed

text \<open>
  The \<^verbatim>\<open>do ... while (ok && current_panel->marked != 0)\<close> loop of
  \<^verbatim>\<open>chattr_apply_mask\<close>, and the function itself: the first file with the flags it is
  handed, and the loop unless \<^verbatim>\<open>do_chattr\<close> returned \<^verbatim>\<open>FALSE\<close>.
\<close>

function chattr_apply_loop :: "'a::len word chattr_state \<Rightarrow> 'a word chattr_state option" where
  "chattr_apply_loop s =
     (case apply_mask_body s of
        None \<Rightarrow> None
      | Some (ok, s') \<Rightarrow>
          if ok \<and> marked (current_panel s') \<noteq> 0 then chattr_apply_loop s' else Some s')"
  by pat_completeness auto
termination
  by (relation "measure marked_entries") (auto simp: apply_mask_body_count)

declare chattr_apply_loop.simps [simp del]

definition chattr_apply_mask ::
  "string \<Rightarrow> 'a::len word \<Rightarrow> 'a word chattr_state \<Rightarrow> 'a word chattr_state option" where
  "chattr_apply_mask vpath m s =
     (case do_chattr vpath m s of
        None \<Rightarrow> None
      | Some (ret, s1) \<Rightarrow> if \<not> ret then Some s1 else chattr_apply_loop s1)"

subsection \<open>The switch of \<^verbatim>\<open>chattr_cmd\<close>\<close>

text \<open>
  One round of the loop of \<^verbatim>\<open>chattr_cmd\<close> from the point where the dialog has returned
  \<open>result\<close> for the file \<open>fn\<close>: the switch, and the unmarking that follows it. The state
  holds what the dialog left behind (\<^verbatim>\<open>flags\<close>, \<^verbatim>\<open>flags_changed\<close>, the marks and boxes of
  the table). \<open>chattr_cmd_switch\<close> returns \<open>result\<close> as the switch leaves it, \<open>end_chattr\<close>,
  \<open>need_update\<close> and the new state; \<open>chattr_cmd_round\<close> adds the unmarking after the switch.
\<close>

definition chattr_cmd_switch ::
  "'a::len word \<Rightarrow> button \<Rightarrow> string \<Rightarrow> 'a word chattr_state \<Rightarrow>
   (button \<times> bool \<times> bool \<times> 'a word chattr_state) option" where
  "chattr_cmd_switch um result fn s =
     (case result of
        B_CANCEL \<Rightarrow> Some (B_CANCEL, True, False, s)
      | B_ENTER \<Rightarrow>
          if flags_changed s then
            (if marked (current_panel s) \<le> 1 then
               (case fsetflags fn (g_flags s) s of
                  None \<Rightarrow> None
                | Some (written, s1) \<Rightarrow>
                    Some (B_ENTER, True, True,
                          if \<not> written \<and> \<not> ignore_all s1 then message fn s1 else s1))
             else
               (case try_chattr fn (g_flags s) s of
                  None \<Rightarrow> None
                | Some (ok, s1) \<Rightarrow>
                    if \<not> ok then Some (B_CANCEL, True, True, s1)
                    else Some (B_ENTER, False, True, s1)))
          else Some (B_ENTER, False, True, s)
      | B_OTHER \<Rightarrow> Some (B_OTHER, False, False, s)
      | _ \<Rightarrow>
          (case build_masks um result (check_attr s) of
             None \<Rightarrow> None
           | Some (am, om) \<Rightarrow>
               (case chattr_apply_mask fn (g_flags s) (s\<lparr>or_mask := om, and_mask := am\<rparr>) of
                  None \<Rightarrow> None
                | Some s1 \<Rightarrow> Some (result, True, True, s1))))"

definition chattr_cmd_round ::
  "'a::len word \<Rightarrow> button \<Rightarrow> string \<Rightarrow> 'a word chattr_state \<Rightarrow>
   (bool \<times> bool \<times> 'a word chattr_state) option" where
  "chattr_cmd_round um result fn s =
     (case chattr_cmd_switch um result fn s of
        None \<Rightarrow> None
      | Some (result', end_chattr, need_update, s1) \<Rightarrow>
          if marked (current_panel s1) \<noteq> 0 \<and> result' \<noteq> B_CANCEL then
            (case do_file_mark (current_panel s1) (current_file s1) False of
               None \<Rightarrow> None
             | Some pn \<Rightarrow> Some (end_chattr, True, s1\<lparr>current_panel := pn\<rparr>))
          else Some (end_chattr, need_update, s1))"

section \<open>Notions used to state the properties\<close>

text \<open>The bitwise OR of a list of words.\<close>

definition or_all :: "'a::len word list \<Rightarrow> 'a word" where
  "or_all xs = foldr (OR) xs 0"

text \<open>The guard of the loop of \<^verbatim>\<open>B_SETALL\<close> and \<^verbatim>\<open>B_MARKED\<close>.\<close>

definition participates :: "'a::len word \<Rightarrow> button \<Rightarrow> 'a word check_attr_t \<Rightarrow> bool" where
  "participates um b d \<longleftrightarrow>
     chattr_is_modifiable um d \<and> (selected d \<or> b = B_SETALL)"

text \<open>
  No two entries of a table share a bit. The table \<^verbatim>\<open>check_attr\<close> of the source has one
  entry for each attribute bit, so its flags are pairwise disjoint; the entries under
  \<^verbatim>\<open>#ifdef\<close> only remove entries from it.
\<close>

fun disjoint_flags :: "'a::len word list \<Rightarrow> bool" where
  "disjoint_flags [] \<longleftrightarrow> True"
| "disjoint_flags (x # xs) \<longleftrightarrow> (\<forall>y\<in>set xs. x AND y = 0) \<and> disjoint_flags xs"

text \<open>Events of the trace: a prompt, and a prompt answered with Cancel (neither 0, 1 nor 2).\<close>

fun is_query :: "'w event \<Rightarrow> bool" where
  "is_query (EvQuery p r) \<longleftrightarrow> True"
| "is_query _ \<longleftrightarrow> False"

fun is_cancel :: "'w event \<Rightarrow> bool" where
  "is_cancel (EvQuery p r) \<longleftrightarrow> r \<noteq> 0 \<and> r \<noteq> 1 \<and> r \<noteq> 2"
| "is_cancel _ \<longleftrightarrow> False"

text \<open>
  A call of \<^verbatim>\<open>fsetflags\<close> in the batch writes the word read for that file, masked; a call
  of \<^verbatim>\<open>fgetflags\<close> returns the word the disk has for the file.
\<close>

fun masked_write :: "(string \<times> 'a::len word) list \<Rightarrow> 'a word \<Rightarrow> 'a word \<Rightarrow> 'a word event \<Rightarrow> bool" where
  "masked_write d am om (EvSetflags p w ok) =
     (case map_of d p of None \<Rightarrow> False | Some r \<Rightarrow> w = mask_flags am om r)"
| "masked_write d am om (EvGetflags p r) = (r = map_of d p)"
| "masked_write d am om _ = True"

text \<open>\<open>n\<close> rounds of \<^verbatim>\<open>try_chattr\<close> that fail and are answered with Retry.\<close>

definition retry_rounds :: "string \<Rightarrow> 'w \<Rightarrow> nat \<Rightarrow> 'w event list" where
  "retry_rounds p m n = concat (replicate n [EvSetflags p m False, EvQuery p 2])"

text \<open>
  The events of one call of \<^verbatim>\<open>try_chattr\<close> on \<open>p\<close> and \<open>m\<close> that starts with
  \<^verbatim>\<open>ignore_all\<close> at \<open>ia\<close> and returns \<open>r\<close>.
\<close>

definition try_events :: "string \<Rightarrow> 'w \<Rightarrow> bool \<Rightarrow> bool \<Rightarrow> 'w event list \<Rightarrow> bool" where
  "try_events p m ia r evs \<longleftrightarrow>
     evs \<noteq> [] \<and> (\<exists>w. hd evs = EvSetflags p m w) \<and>
     (\<forall>e\<in>set evs. (\<exists>w. e = EvSetflags p m w) \<or> (\<exists>q. e = EvQuery p q)) \<and>
     (\<forall>e\<in>set (butlast evs). \<not> is_cancel e) \<and> (is_cancel (last evs) \<longleftrightarrow> \<not> r) \<and>
     (\<not> r \<longrightarrow> (\<forall>e\<in>set evs. e \<noteq> EvSetflags p m True)) \<and>
     (ia \<longrightarrow> r \<and> (\<forall>e\<in>set evs. \<not> is_query e))"

text \<open>The list with the mark of entry \<open>i\<close> removed.\<close>

definition unmark_entry :: "file_entry list \<Rightarrow> nat \<Rightarrow> file_entry list" where
  "unmark_entry l i = l[i := (l ! i)\<lparr>f_marked := False\<rparr>]"

text \<open>The globals that the batch never writes.\<close>

definition same_masks :: "'w chattr_state \<Rightarrow> 'w chattr_state \<Rightarrow> bool" where
  "same_masks s s' \<longleftrightarrow>
     and_mask s' = and_mask s \<and> or_mask s' = or_mask s \<and> disk s' = disk s \<and>
     check_attr s' = check_attr s \<and> flags_changed s' = flags_changed s"

text \<open>What one round of the loop does, as a relation.\<close>

definition body_step :: "'a::len word chattr_state \<Rightarrow> bool \<Rightarrow> 'a word chattr_state \<Rightarrow> bool" where
  "body_step s ok s' \<longleftrightarrow>
     (\<exists>i. next_marked (dir_list (current_panel s)) (current_file s) = Some i \<and>
          current_file s' = i \<and>
          dir_list (current_panel s') = unmark_entry (dir_list (current_panel s)) i \<and>
          marked (current_panel s') = marked (current_panel s) - 1 \<and>
          same_masks s s' \<and>
          (case map_of (disk s) (fname (dir_list (current_panel s) ! i)) of
             None \<Rightarrow>
               ok \<and> trace s' = trace s @ [EvGetflags (fname (dir_list (current_panel s) ! i)) None] \<and>
               ignore_all s' = ignore_all s \<and> query_res s' = query_res s \<and>
               fsetflags_res s' = fsetflags_res s \<and> g_flags s' = g_flags s
           | Some m \<Rightarrow>
               g_flags s' = m \<and>
               (\<exists>evs. trace s' =
                        trace s @ EvGetflags (fname (dir_list (current_panel s) ! i)) (Some m) # evs \<and>
                      try_events (fname (dir_list (current_panel s) ! i))
                        (mask_flags (and_mask s) (or_mask s) m) (ignore_all s) ok evs \<and>
                      (ignore_all s \<longrightarrow> ignore_all s' \<and> query_res s' = query_res s))))"


text \<open>
  The indices of the marked entries of the list from index \<open>i\<close> on, in the order of the
  list: the files that \<^verbatim>\<open>next_file\<close> finds one after the other when each is unmarked
  before the next call.
\<close>

definition marked_from :: "file_entry list \<Rightarrow> nat \<Rightarrow> nat list" where
  "marked_from l i = filter (\<lambda>j. f_marked (l ! j)) [i..<length l]"

text \<open>The file at the cursor unmarked, and the count of marked files one less.\<close>

definition unmark_current :: "'w chattr_state \<Rightarrow> 'w chattr_state" where
  "unmark_current s =
     s\<lparr>current_panel :=
         (current_panel s)\<lparr>dir_list := unmark_entry (dir_list (current_panel s)) (current_file s),
                            marked := marked (current_panel s) - 1\<rparr>\<rparr>"

text \<open>
  A batch over the files at the indices \<open>js\<close>, file by file, in that order: the cursor goes
  to the file and its flags are read; a file whose flags cannot be read is unmarked, and
  the batch goes on; otherwise the word read for this file, masked with
  \<open>(x AND and_mask) OR or_mask\<close>, is written through \<^verbatim>\<open>try_chattr\<close>, the file is unmarked, and
  the batch goes on unless \<^verbatim>\<open>try_chattr\<close> has returned \<^verbatim>\<open>FALSE\<close>. This is what the loop of
  \<^verbatim>\<open>chattr_apply_mask\<close> is shown to do on the marked files after the first.
\<close>

fun batch_files :: "nat list \<Rightarrow> 'a::len word chattr_state \<Rightarrow> 'a word chattr_state option" where
  "batch_files [] s = Some s"
| "batch_files (j # js) s =
     (let fn = fname (dir_list (current_panel s) ! j) in
        case map_of (disk s) fn of
          None \<Rightarrow>
            batch_files js
              (unmark_current (s\<lparr>current_file := j, trace := trace s @ [EvGetflags fn None]\<rparr>))
        | Some x \<Rightarrow>
            (case try_chattr fn ((x AND and_mask s) OR or_mask s)
                    (s\<lparr>current_file := j, trace := trace s @ [EvGetflags fn (Some x)],
                       g_flags := x\<rparr>) of
               None \<Rightarrow> None
             | Some (ok, s1) \<Rightarrow>
                 if ok then batch_files js (unmark_current s1) else Some (unmark_current s1)))"

text \<open>
  The calls made for the file at index \<open>j\<close> when every write succeeds: the read of its
  flags and, if they can be read, the write of the word read, masked.
\<close>

definition file_events :: "'a::len word chattr_state \<Rightarrow> nat \<Rightarrow> 'a word event list" where
  "file_events s j =
     (let fn = fname (dir_list (current_panel s) ! j) in
        case map_of (disk s) fn of
          None \<Rightarrow> [EvGetflags fn None]
        | Some x \<Rightarrow> [EvGetflags fn (Some x),
                     EvSetflags fn ((x AND and_mask s) OR or_mask s) True])"

text \<open>
  An example: three marked files, masks that clear bit 1 and set bit 4. The outcomes of
  the calls to come are filled in where the example is used.
\<close>

definition example :: "32 word chattr_state" where
  "example =
     \<lparr>check_attr = check_attr_table,
      current_panel =
        \<lparr>dir_list = [\<lparr>fname = ''a'', f_marked = True\<rparr>,
                     \<lparr>fname = ''b'', f_marked = True\<rparr>,
                     \<lparr>fname = ''c'', f_marked = True\<rparr>],
         marked = 3\<rparr>,
      current_file = 0, ignore_all = False, flags_changed = True,
      and_mask = 0xFFFFFFFD, or_mask = 0x10, g_flags = 0x03,
      disk = [(''a'', 0x03), (''b'', 0x22), (''c'', 0x80)],
      fsetflags_res = [], query_res = [], trace = []\<rparr>"

section \<open>The masks\<close>

subsection \<open>Closed forms of the three loops\<close>

lemma or_all_simps [simp]: "or_all [] = 0" "or_all (x # xs) = x OR or_all xs"
  by (simp_all add: or_all_def)

lemma bit_or_all: "bit (or_all xs) n \<longleftrightarrow> (\<exists>x\<in>set xs. bit x n)"
  by (induction xs) (auto simp: bit_or_iff)

lemma and_not_or: "(am AND NOT f) AND NOT x = am AND NOT (f OR x)" for am :: "'a::len word"
  by (auto simp: bit_eq_iff bit_simps)

lemma mask_flags_twice:
  "((((x :: 'a::len word) AND am) OR om) AND am) OR om = (x AND am) OR om"
  by (auto simp: bit_eq_iff bit_simps)

lemma setall_body_apply:
  "setall_body um b d (am, om) =
     (if participates um b d then
       (if check d then (am, om OR flags d) else (am AND NOT (flags d), om))
     else (am, om))"
  by (simp add: setall_body_def participates_def)

lemma setmrk_body_apply:
  "setmrk_body um d (am, om) =
     (if chattr_is_modifiable um d \<and> selected d then (am, om OR flags d) else (am, om))"
  by (simp add: setmrk_body_def)

lemma clrmrk_body_apply:
  "clrmrk_body um d (am, om) =
     (if chattr_is_modifiable um d \<and> selected d then (am AND NOT (flags d), om) else (am, om))"
  by (simp add: clrmrk_body_def)

lemma setall_fold:
  "fold (setall_body um b) tbl (am, om) =
     (am AND NOT (or_all (map flags (filter (\<lambda>d. participates um b d \<and> \<not> check d) tbl))),
      om OR or_all (map flags (filter (\<lambda>d. participates um b d \<and> check d) tbl)))"
proof (induction tbl arbitrary: am om)
  case Nil
  then show ?case by simp
next
  case (Cons d tbl)
  show ?case
    by (simp add: setall_body_apply Cons.IH and_not_or or.assoc) 
qed

lemma setmrk_fold:
  "fold (setmrk_body um) tbl (am, om) =
     (am, om OR or_all (map flags (filter (\<lambda>d. chattr_is_modifiable um d \<and> selected d) tbl)))"
proof (induction tbl arbitrary: am om)
  case Nil
  then show ?case by simp
next
  case (Cons d tbl)
  show ?case
    by (simp add: setmrk_body_apply Cons.IH or.assoc) 
qed

lemma clrmrk_fold:
  "fold (clrmrk_body um) tbl (am, om) =
     (am AND NOT (or_all (map flags (filter (\<lambda>d. chattr_is_modifiable um d \<and> selected d) tbl))), om)"
proof (induction tbl arbitrary: am om)
  case Nil
  then show ?case by simp
next
  case (Cons d tbl)
  show ?case
    by (simp add: clrmrk_body_apply Cons.IH and_not_or) 
qed

lemma disjoint_flagsD:
  "disjoint_flags (map flags tbl) \<Longrightarrow> d \<in> set tbl \<Longrightarrow> d' \<in> set tbl \<Longrightarrow> d \<noteq> d' \<Longrightarrow>
   flags d AND flags d' = 0"
proof (induction tbl)
  case Nil
  then show ?case by simp
next
  case (Cons a tbl)
  then show ?case by (auto simp: and.commute)
qed

text \<open>The table of the source has pairwise disjoint flags, whatever is selected or ticked.\<close>

lemma check_attr_table_disjoint:
  "map flags tbl = map flags (check_attr_table :: 'a::len word check_attr_t list) \<Longrightarrow>
   disjoint_flags (map flags tbl)"
  by (simp add: check_attr_table_def mk_attr_def)

lemma fold_replace:
  "i < length xs \<Longrightarrow> f (xs ! i) = f y \<Longrightarrow> fold f (xs[i := y]) = fold f xs"
proof (induction xs arbitrary: i)
  case Nil
  then show ?case by simp
next
  case (Cons a xs)
  then show ?case by (cases i) (auto simp: fun_eq_iff)
qed

lemma build_masks_shape:
  assumes "build_masks um b tbl = Some (am, om)"
  shows "\<exists>P Q. am = NOT (or_all (map flags (filter P tbl))) \<and>
               om = or_all (map flags (filter Q tbl)) \<and>
               (\<forall>d. P d \<or> Q d \<longrightarrow> chattr_is_modifiable um d) \<and>
               (\<forall>d. \<not> (P d \<and> Q d))"
proof (cases b)
  case B_SETALL
  with assms show ?thesis
    apply (rule_tac x = "\<lambda>d. participates um b d \<and> \<not> check d" in exI)
    apply (rule_tac x = "\<lambda>d. participates um b d \<and> check d" in exI)
    apply (auto simp: setall_fold participates_def)
    done
next
  case B_MARKED
  with assms show ?thesis
    apply (rule_tac x = "\<lambda>d. participates um b d \<and> \<not> check d" in exI)
    apply (rule_tac x = "\<lambda>d. participates um b d \<and> check d" in exI)
    apply (auto simp: setall_fold participates_def)
    done
next
  case B_SETMRK
  with assms show ?thesis
    apply (rule_tac x = "\<lambda>d. False" in exI)
    apply (rule_tac x = "\<lambda>d. chattr_is_modifiable um d \<and> selected d" in exI)
    apply (auto simp: setmrk_fold)
    done
next
  case B_CLRMRK
  with assms show ?thesis
    apply (rule_tac x = "\<lambda>d. chattr_is_modifiable um d \<and> selected d" in exI)
    apply (rule_tac x = "\<lambda>d. False" in exI)
    apply (auto simp: clrmrk_fold)
    done
qed (use assms in simp_all)

lemma body_non_modifiable:
  assumes "\<not> chattr_is_modifiable um d"
  shows "setall_body um b d = id" "setmrk_body um d = id" "clrmrk_body um d = id"
  using assms by (auto simp: setall_body_def setmrk_body_def clrmrk_body_def fun_eq_iff)

lemma build_masks_replace:
  assumes "i < length tbl" "\<not> chattr_is_modifiable um (tbl ! i)" "flags d = flags (tbl ! i)"
  shows "build_masks um b (tbl[i := d]) = build_masks um b tbl"
proof -
  from assms have "\<not> chattr_is_modifiable um d" by (simp add: chattr_is_modifiable_def)
  with assms(1,2) show ?thesis
    by (cases b) (simp_all add: fold_replace body_non_modifiable)
qed

subsection \<open>The two facts about the masks of a table without shared bits\<close>

lemma build_masks_no_conflict:
  assumes "disjoint_flags (map flags tbl)"
      and "build_masks um b tbl = Some (am, om)"
  shows "om AND NOT am = 0 \<and> (\<forall>n. bit om n \<longrightarrow> bit am n)"
proof -
  from build_masks_shape[OF assms(2)] obtain P Q
    where am: "am = NOT (or_all (map flags (filter P tbl)))"
      and om: "om = or_all (map flags (filter Q tbl))"
      and PQ: "\<And>d. \<not> (P d \<and> Q d)"
    by blast
  have imp: "bit am n" if "bit om n" for n
  proof -
    from that om obtain d where d: "d \<in> set tbl" "Q d" "bit (flags d) n"
      by (auto simp: bit_or_all)
    have "\<not> bit (flags d') n" if d': "d' \<in> set tbl" "P d'" for d'
    proof -
      from d' d PQ have "d \<noteq> d'" by blast
      with assms(1) d d' have "flags d AND flags d' = 0" by (auto dest: disjoint_flagsD)
      then have "\<not> bit (flags d AND flags d') n" by simp
      with d show ?thesis by (simp add: bit_and_iff)
    qed
    with that show "bit am n" by (auto simp: am bit_not_iff bit_or_all dest: bit_imp_le_length)
  qed
  then have "om AND NOT am = 0" by (auto simp: bit_eq_iff bit_simps)
  with imp show ?thesis by blast
qed

lemma build_masks_identity:
  assumes "disjoint_flags (map flags tbl)"
      and "i < length tbl"
      and "\<not> chattr_is_modifiable um (tbl ! i)"
      and "build_masks um b tbl = Some (am, om)"
  shows "am AND flags (tbl ! i) = flags (tbl ! i) \<and> om AND flags (tbl ! i) = 0 \<and>
         build_masks um b (tbl[i := (tbl ! i)\<lparr>selected := sel, check := chk\<rparr>]) = Some (am, om)"
proof -
  from build_masks_shape[OF assms(4)] obtain P Q
    where am: "am = NOT (or_all (map flags (filter P tbl)))"
      and om: "om = or_all (map flags (filter Q tbl))"
      and PQ: "\<And>d. P d \<or> Q d \<Longrightarrow> chattr_is_modifiable um d"
    by blast
  have dis: "\<not> (bit (flags d) n \<and> bit (flags (tbl ! i)) n)" if "d \<in> set tbl" "P d \<or> Q d" for d n
  proof -
    from that PQ assms(3) have "d \<noteq> tbl ! i" by blast
    moreover from assms(2) have "tbl ! i \<in> set tbl" by simp
    ultimately have "flags d AND flags (tbl ! i) = 0"
      using assms(1) that(1) by (rule_tac disjoint_flagsD)
    then have "\<not> bit (flags d AND flags (tbl ! i)) n" by simp
    then show ?thesis by (simp add: bit_and_iff)
  qed
  have 1: "am AND flags (tbl ! i) = flags (tbl ! i)"
    using dis by (auto simp: am bit_eq_iff bit_and_iff bit_not_iff bit_or_all dest: bit_imp_le_length)
  have 2: "om AND flags (tbl ! i) = 0"
    using dis by (auto simp: om bit_eq_iff bit_and_iff bit_or_all)
  have 3: "build_masks um b (tbl[i := (tbl ! i)\<lparr>selected := sel, check := chk\<rparr>]) = Some (am, om)"
    using build_masks_replace[OF assms(2,3), of "(tbl ! i)\<lparr>selected := sel, check := chk\<rparr>" b] assms(4)
    by simp
  from 1 2 3 show ?thesis by blast
qed


subsection \<open>Applying a mask pair\<close>

text \<open>
  Claim C9. For every flags word \<open>x\<close> and every mask pair, the transformation
  \<open>x \<mapsto> (x AND and_mask) OR or_mask\<close> of \<^verbatim>\<open>do_chattr\<close> is idempotent: applied twice
  it gives what it gives applied once. So \<^verbatim>\<open>do_chattr\<close> run on a word that is already
  masked does what it does on the word itself.
\<close>

theorem mask_flags_idempotent:
  "mask_flags am om (mask_flags am om x) = mask_flags am om x \<and>
   do_chattr p (mask_flags (and_mask s) (or_mask s) m) s = do_chattr p m s"
  by (simp add: do_chattr_def mask_flags_def mask_flags_twice)

subsection \<open>Set all with every box ticked\<close>

text \<open>
  Claim C6, as the source has it. For \<^verbatim>\<open>B_SETALL\<close> with the box of every modifiable
  attribute ticked, \<open>or_mask\<close> is the OR of the modifiable flags and \<open>and_mask\<close> keeps
  all its bits (\<^verbatim>\<open>~0\<close>): the modifiable bits are forced to 1 and every other bit passes
  through. For a table with the modifiable bits 1, 2 and 4 that is \<open>or_mask = 0b111\<close>
  and \<open>and_mask = 0xFFFFFFFF\<close>.
\<close>

theorem setall_all_checked:
  "\<forall>d\<in>set tbl. chattr_is_modifiable um d \<longrightarrow> check d \<Longrightarrow>
   build_masks um B_SETALL tbl =
     Some (NOT 0, or_all (map flags (filter (chattr_is_modifiable um) tbl)))"
proof -
  assume a: "\<forall>d\<in>set tbl. chattr_is_modifiable um d \<longrightarrow> check d"
  have 1: "filter (\<lambda>d. participates um B_SETALL d \<and> \<not> check d) tbl = []"
    using a by (auto simp: filter_empty_conv participates_def)
  have 2: "filter (\<lambda>d. participates um B_SETALL d \<and> check d) tbl = filter (chattr_is_modifiable um) tbl"
    using a by (auto simp: participates_def intro: filter_cong)
  show ?thesis by (simp add: setall_fold 1 2)
qed

theorem setall_all_checked_witness:
  "list_all check
     [\<lparr>flags = 1 :: 32 word, attr = CHR ''s'', label = ''Secure deletion'', selected = False, check = True\<rparr>,
      \<lparr>flags = 2, attr = CHR ''u'', label = ''Undelete'', selected = False, check = True\<rparr>,
      \<lparr>flags = 4, attr = CHR ''c'', label = ''Compress'', selected = False, check = True\<rparr>] \<and>
   build_masks (7 :: 32 word) B_SETALL
     [\<lparr>flags = 1, attr = CHR ''s'', label = ''Secure deletion'', selected = False, check = True\<rparr>,
      \<lparr>flags = 2, attr = CHR ''u'', label = ''Undelete'', selected = False, check = True\<rparr>,
      \<lparr>flags = 4, attr = CHR ''c'', label = ''Compress'', selected = False, check = True\<rparr>]
     = Some (0xFFFFFFFF, 0b111)"
  using setall_all_checked [of
     "[\<lparr>flags = 1 :: 32 word, attr = CHR ''s'', label = ''Secure deletion'', selected = False, check = True\<rparr>,
      \<lparr>flags = 2, attr = CHR ''u'', label = ''Undelete'', selected = False, check = True\<rparr>,
      \<lparr>flags = 4, attr = CHR ''c'', label = ''Compress'', selected = False, check = True\<rparr>]" 7]
  by (simp add: chattr_is_modifiable_def)

text \<open>
  Claim C6 as stated has \<open>and_mask = or_mask = 0b111\<close> for that table. The source gives
  another \<open>and_mask\<close>.
\<close>

theorem setall_and_mask_counterexample:
  "build_masks (7 :: 32 word) B_SETALL
     [\<lparr>flags = 1, attr = CHR ''s'', label = ''Secure deletion'', selected = False, check = True\<rparr>,
      \<lparr>flags = 2, attr = CHR ''u'', label = ''Undelete'', selected = False, check = True\<rparr>,
      \<lparr>flags = 4, attr = CHR ''c'', label = ''Compress'', selected = False, check = True\<rparr>]
     \<noteq> Some (0b111, 0b111)"
  by (simp add: setall_body_def chattr_is_modifiable_def)

subsection \<open>No bit is forced both ways\<close>

text \<open>
  Claim C7. For a table whose entries share no bit, and so for every table with the flags
  of \<^verbatim>\<open>check_attr\<close> (whatever is selected or ticked, and whatever the modifiable bits
  are), the mask pair of each of the four batch operations has no bit that is cleared by
  \<open>and_mask\<close> and set by \<open>or_mask\<close>: \<open>or_mask AND NOT and_mask = 0\<close>, that is, a bit
  of \<open>or_mask\<close> is a bit of \<open>and_mask\<close>, so every bit is left as it is (1,0), forced
  to 1 (1,1) or forced to 0 (0,0).
\<close>

theorem masks_never_conflict:
  "(disjoint_flags (map flags tbl) \<and> build_masks um b tbl = Some (am, om) \<longrightarrow>
      om AND NOT am = 0 \<and> (\<forall>n. bit om n \<longrightarrow> bit am n)) \<and>
   (map flags tbl' = map flags check_attr_table \<and> build_masks um' b' tbl' = Some (am', om') \<longrightarrow>
      om' AND NOT am' = 0 \<and> (\<forall>n. bit om' n \<longrightarrow> bit am' n))"
  using build_masks_no_conflict [of tbl um b am om]
        build_masks_no_conflict [OF check_attr_table_disjoint, of tbl' um' b' am' om']
  by blast

theorem masks_never_conflict_witness:
  "disjoint_flags (map flags ((check_attr_table :: 32 word check_attr_t list)
       [0 := (check_attr_table ! 0)\<lparr>selected := True, check := True\<rparr>,
        4 := (check_attr_table ! 4)\<lparr>selected := True\<rparr>])) \<and>
   map flags ((check_attr_table :: 32 word check_attr_t list)
       [0 := (check_attr_table ! 0)\<lparr>selected := True, check := True\<rparr>,
        4 := (check_attr_table ! 4)\<lparr>selected := True\<rparr>]) = map flags check_attr_table \<and>
   build_masks (0x604B80FF :: 32 word) B_MARKED
     (check_attr_table [0 := (check_attr_table ! 0)\<lparr>selected := True, check := True\<rparr>,
                        4 := (check_attr_table ! 4)\<lparr>selected := True\<rparr>])
     = Some (0xFFFFFFEF, 0x00000001) \<and>
   (0x00000001 :: 32 word) AND NOT 0xFFFFFFEF = 0"
proof -
  let ?tbl = "(check_attr_table :: 32 word check_attr_t list)
       [0 := (check_attr_table ! 0)\<lparr>selected := True, check := True\<rparr>,
        4 := (check_attr_table ! 4)\<lparr>selected := True\<rparr>]"
  have d: "disjoint_flags (map flags ?tbl)"
    by (simp add: check_attr_table_def mk_attr_def)
  have f: "map flags ?tbl = map flags check_attr_table"
    by (simp add: check_attr_table_def mk_attr_def)
  have b: "build_masks (0x604B80FF :: 32 word) B_MARKED ?tbl = Some (0xFFFFFFEF, 0x00000001)"
    by (simp add: check_attr_table_def mk_attr_def setall_body_def chattr_is_modifiable_def)
  note inst = masks_never_conflict
    [where tbl = "?tbl" and um = "0x604B80FF" and b = B_MARKED and am = "0xFFFFFFEF" and om = 1
       and tbl' = "?tbl" and um' = "0x604B80FF" and b' = B_MARKED and am' = "0xFFFFFFEF" and om' = 1]
  from inst d b have 1: "(0x00000001 :: 32 word) AND NOT 0xFFFFFFEF = 0" by blast
  from inst f b have 2: "(0x00000001 :: 32 word) AND NOT 0xFFFFFFEF = 0" by blast
  from d f b 1 2 show ?thesis by blast
qed

subsection \<open>Attributes that are not modifiable\<close>

text \<open>
  Claim C8. For each of the four batch operations and every entry that is not modifiable,
  of a table whose entries share no bit, and so of every table with the flags of
  \<^verbatim>\<open>check_attr\<close>: the bits of the entry stay at the identity in the masks built
  (\<open>and_mask\<close> has them, \<open>or_mask\<close> has not), and the masks are the same whatever the
  entry's \<open>selected\<close> mark and box are.
\<close>

theorem non_modifiable_never_influences:
  "(disjoint_flags (map flags tbl) \<and> i < length tbl \<and>
    \<not> chattr_is_modifiable um (tbl ! i) \<and> build_masks um b tbl = Some (am, om) \<longrightarrow>
      am AND flags (tbl ! i) = flags (tbl ! i) \<and> om AND flags (tbl ! i) = 0 \<and>
      build_masks um b (tbl[i := (tbl ! i)\<lparr>selected := sel, check := chk\<rparr>]) = Some (am, om)) \<and>
   (map flags tbl' = map flags check_attr_table \<and> i' < length tbl' \<and>
    \<not> chattr_is_modifiable um' (tbl' ! i') \<and> build_masks um' b' tbl' = Some (am', om') \<longrightarrow>
      am' AND flags (tbl' ! i') = flags (tbl' ! i') \<and> om' AND flags (tbl' ! i') = 0 \<and>
      build_masks um' b' (tbl'[i' := (tbl' ! i')\<lparr>selected := sel', check := chk'\<rparr>]) = Some (am', om'))"
  using build_masks_identity [where tbl = tbl and i = i and um = um and b = b and am = am
          and om = om and sel = sel and chk = chk]
        build_masks_identity [OF check_attr_table_disjoint, where tbl = tbl' and i = i'
          and um = um' and b = b' and am = am' and om = om' and sel = sel' and chk = chk']
  by blast

theorem non_modifiable_never_influences_witness:
  "disjoint_flags (map flags ((check_attr_table :: 32 word check_attr_t list)
       [0 := (check_attr_table ! 0)\<lparr>selected := True, check := True\<rparr>,
        4 := (check_attr_table ! 4)\<lparr>selected := True\<rparr>])) \<and>
   map flags ((check_attr_table :: 32 word check_attr_t list)
       [0 := (check_attr_table ! 0)\<lparr>selected := True, check := True\<rparr>,
        4 := (check_attr_table ! 4)\<lparr>selected := True\<rparr>]) = map flags check_attr_table \<and>
   14 < length ((check_attr_table :: 32 word check_attr_t list)
       [0 := (check_attr_table ! 0)\<lparr>selected := True, check := True\<rparr>,
        4 := (check_attr_table ! 4)\<lparr>selected := True\<rparr>]) \<and>
   \<not> chattr_is_modifiable (0x604B80FF :: 32 word)
       ((check_attr_table [0 := (check_attr_table ! 0)\<lparr>selected := True, check := True\<rparr>,
                           4 := (check_attr_table ! 4)\<lparr>selected := True\<rparr>]) ! 14) \<and>
   build_masks (0x604B80FF :: 32 word) B_MARKED
     (check_attr_table [0 := (check_attr_table ! 0)\<lparr>selected := True, check := True\<rparr>,
                        4 := (check_attr_table ! 4)\<lparr>selected := True\<rparr>])
     = Some (0xFFFFFFEF, 0x00000001) \<and>
   (0xFFFFFFEF :: 32 word) AND 0x00001000 = 0x00001000 \<and>
   (0x00000001 :: 32 word) AND 0x00001000 = 0 \<and>
   build_masks (0x604B80FF :: 32 word) B_MARKED
     (check_attr_table [0 := (check_attr_table ! 0)\<lparr>selected := True, check := True\<rparr>,
                        4 := (check_attr_table ! 4)\<lparr>selected := True\<rparr>,
                        14 := (check_attr_table ! 14)\<lparr>selected := True, check := True\<rparr>])
     = Some (0xFFFFFFEF, 0x00000001)"
proof -
  let ?tbl = "(check_attr_table :: 32 word check_attr_t list)
       [0 := (check_attr_table ! 0)\<lparr>selected := True, check := True\<rparr>,
        4 := (check_attr_table ! 4)\<lparr>selected := True\<rparr>]"
  have d: "disjoint_flags (map flags ?tbl)"
    by (simp add: check_attr_table_def mk_attr_def)
  have f: "map flags ?tbl = map flags check_attr_table"
    by (simp add: check_attr_table_def mk_attr_def)
  have l: "14 < length ?tbl"
    by (simp add: check_attr_table_def)
  have n: "\<not> chattr_is_modifiable (0x604B80FF :: 32 word) (?tbl ! 14)"
    by (simp add: check_attr_table_def mk_attr_def chattr_is_modifiable_def)
  have b: "build_masks (0x604B80FF :: 32 word) B_MARKED ?tbl = Some (0xFFFFFFEF, 0x00000001)"
    by (simp add: check_attr_table_def mk_attr_def setall_body_def chattr_is_modifiable_def)
  have e: "flags (?tbl ! 14) = 0x00001000" "?tbl ! 14 = check_attr_table ! 14"
    by (simp_all add: check_attr_table_def mk_attr_def)
  note inst = non_modifiable_never_influences
    [where tbl = "?tbl" and um = "0x604B80FF" and b = B_MARKED and am = "0xFFFFFFEF" and om = 1
       and i = 14 and sel = True and chk = True
       and tbl' = "?tbl" and um' = "0x604B80FF" and b' = B_MARKED and am' = "0xFFFFFFEF" and om' = 1
       and i' = 14 and sel' = True and chk' = True]
  from inst d l n b have
    "0xFFFFFFEF AND flags (?tbl ! 14) = flags (?tbl ! 14) \<and> 1 AND flags (?tbl ! 14) = 0 \<and>
     build_masks 0x604B80FF B_MARKED (?tbl[14 := (?tbl ! 14)\<lparr>selected := True, check := True\<rparr>]) =
       Some (0xFFFFFFEF, 1)"
    by blast
  then have 1: "(0xFFFFFFEF :: 32 word) AND 0x00001000 = 0x00001000 \<and>
     (0x00000001 :: 32 word) AND 0x00001000 = 0 \<and>
     build_masks (0x604B80FF :: 32 word) B_MARKED
       (?tbl[14 := (check_attr_table ! 14)\<lparr>selected := True, check := True\<rparr>]) =
       Some (0xFFFFFFEF, 0x00000001)"
    by (simp only: e) simp
  from inst f l n b have
    "0xFFFFFFEF AND flags (?tbl ! 14) = flags (?tbl ! 14) \<and> 1 AND flags (?tbl ! 14) = 0"
    by blast
  with d f l n b 1 show ?thesis by blast
qed


section \<open>The batch\<close>

subsection \<open>One call of \<^verbatim>\<open>try_chattr\<close>\<close>

lemma retry_rounds_simps [simp]:
  "retry_rounds p m 0 = []"
  "retry_rounds p m (Suc n) = EvSetflags p m False # EvQuery p 2 # retry_rounds p m n"
  by (simp_all add: retry_rounds_def)

lemma set_retry_rounds: "set (retry_rounds p m n) \<subseteq> {EvSetflags p m False, EvQuery p 2}"
  by (induction n) auto

lemma try_chattr_shape:
  "try_chattr p m s = Some (r, s') \<Longrightarrow>
   \<exists>n fin. trace s' = trace s @ retry_rounds p m n @ fin \<and>
           fsetflags_res s' = drop (Suc n) (fsetflags_res s) \<and>
           (ignore_all s \<longrightarrow> n = 0) \<and>
           ((\<exists>w. fin = [EvSetflags p m w] \<and> (w \<or> ignore_all s) \<and> r \<and>
                 ignore_all s' = ignore_all s \<and> query_res s' = drop n (query_res s)) \<or>
            (\<exists>q. fin = [EvSetflags p m False, EvQuery p q] \<and> q \<noteq> 2 \<and> \<not> ignore_all s \<and>
                 r = (q = 0 \<or> q = 1) \<and> ignore_all s' = (q = 1) \<and>
                 query_res s' = drop (Suc n) (query_res s)))"
proof (induction "length (fsetflags_res s)" arbitrary: s rule: less_induct)
  case less
  show ?case
  proof (cases "fsetflags_res s")
    case Nil
    then have "try_chattr p m s = None"
      by (subst try_chattr_unfold) simp
    with less.prems show ?thesis by simp
  next
    case (Cons w ws)
    note ws = this
    show ?thesis
    proof (cases "w \<or> ignore_all s")
      case True
      with ws have "try_chattr p m s =
          Some (True, s\<lparr>fsetflags_res := ws, trace := trace s @ [EvSetflags p m w]\<rparr>)"
        by (subst try_chattr_unfold) simp
      with less.prems have "r" "s' = s\<lparr>fsetflags_res := ws, trace := trace s @ [EvSetflags p m w]\<rparr>"
        by simp_all
      with True ws show ?thesis
        by (intro exI[of _ 0] exI[of _ "[EvSetflags p m w]"]) auto
    next
      case False
      then have w: "\<not> w" and ia: "\<not> ignore_all s" by auto
      show ?thesis
      proof (cases "query_res s")
        case Nil
        with ws False have "try_chattr p m s = None"
          by (subst try_chattr_unfold) simp
        with less.prems show ?thesis by simp
      next
        case (Cons q qs)
        define s2 where "s2 = s\<lparr>fsetflags_res := ws, query_res := qs,
                                 trace := trace s @ [EvSetflags p m w, EvQuery p q]\<rparr>"
        show ?thesis
        proof (cases "q = 2")
          case True
          with ws Cons False have "try_chattr p m s = try_chattr p m s2"
            by (subst try_chattr_unfold) (simp add: s2_def)
          with less.prems have t2: "try_chattr p m s2 = Some (r, s')" by simp
          have "length (fsetflags_res s2) < length (fsetflags_res s)" by (simp add: s2_def ws)
          from less.hyps[OF this t2] obtain n fin where
            h: "trace s' = trace s2 @ retry_rounds p m n @ fin"
               "fsetflags_res s' = drop (Suc n) (fsetflags_res s2)"
               "(\<exists>w. fin = [EvSetflags p m w] \<and> (w \<or> ignore_all s2) \<and> r \<and>
                 ignore_all s' = ignore_all s2 \<and> query_res s' = drop n (query_res s2)) \<or>
                (\<exists>q. fin = [EvSetflags p m False, EvQuery p q] \<and> q \<noteq> 2 \<and> \<not> ignore_all s2 \<and>
                 r = (q = 0 \<or> q = 1) \<and> ignore_all s' = (q = 1) \<and>
                 query_res s' = drop (Suc n) (query_res s2))"
            by blast
          show ?thesis
            apply (rule exI[of _ "Suc n"], rule exI[of _ fin])
            using h w ia True by (simp add: s2_def ws Cons)
        next
          case q2: False
          with ws Cons False have "try_chattr p m s =
              Some (q = 0 \<or> q = 1, if q = 1 then s2\<lparr>ignore_all := True\<rparr> else s2)"
            by (subst try_chattr_unfold) (simp add: s2_def)
          with less.prems have
            "r = (q = 0 \<or> q = 1)" "s' = (if q = 1 then s2\<lparr>ignore_all := True\<rparr> else s2)"
            by simp_all
          with q2 w ia ws Cons show ?thesis
            by (intro exI[of _ 0] exI[of _ "[EvSetflags p m False, EvQuery p q]"])
               (auto simp: s2_def)
        qed
      qed
    qed
  qed
qed

lemma hd_retry_rounds:
  "\<exists>w. hd (retry_rounds p m n @ EvSetflags p m v # evs) = EvSetflags p m w"
  by (cases n) auto

lemma not_cancel_retry_rounds: "e \<in> set (retry_rounds p m n) \<Longrightarrow> \<not> is_cancel e \<and> e \<noteq> EvSetflags p m True"
  using set_retry_rounds[of p m n] by auto

lemma try_chattr_run:
  assumes "try_chattr p m s = Some (r, s')"
  shows "\<exists>evs. trace s' = trace s @ evs \<and> try_events p m (ignore_all s) r evs \<and>
           (ignore_all s \<longrightarrow> ignore_all s' \<and> query_res s' = query_res s)"
proof -
  from try_chattr_shape[OF assms] obtain n fin where
    tr: "trace s' = trace s @ retry_rounds p m n @ fin"
    and n0: "ignore_all s \<longrightarrow> n = 0"
    and fin: "(\<exists>w. fin = [EvSetflags p m w] \<and> (w \<or> ignore_all s) \<and> r \<and>
                 ignore_all s' = ignore_all s \<and> query_res s' = drop n (query_res s)) \<or>
            (\<exists>q. fin = [EvSetflags p m False, EvQuery p q] \<and> q \<noteq> 2 \<and> \<not> ignore_all s \<and>
                 r = (q = 0 \<or> q = 1) \<and> ignore_all s' = (q = 1) \<and>
                 query_res s' = drop (Suc n) (query_res s))"
    by blast
  have rr: "\<forall>e\<in>set (retry_rounds p m n). (\<exists>w. e = EvSetflags p m w) \<or> (\<exists>q. e = EvQuery p q)"
    using set_retry_rounds[of p m n] by auto
  from fin consider
      (plain) w where "fin = [EvSetflags p m w]" "w \<or> ignore_all s" "r"
        "ignore_all s' = ignore_all s" "query_res s' = drop n (query_res s)"
    | (asked) q where "fin = [EvSetflags p m False, EvQuery p q]" "q \<noteq> 2" "\<not> ignore_all s"
        "r = (q = 0 \<or> q = 1)"
    by blast
  then show ?thesis
  proof cases
    case plain
    with tr n0 rr show ?thesis
      by (intro exI[of _ "retry_rounds p m n @ fin"])
         (auto simp: try_events_def butlast_append hd_retry_rounds dest: not_cancel_retry_rounds)
  next
    case asked
    with tr n0 rr show ?thesis
      by (intro exI[of _ "retry_rounds p m n @ fin"])
         (auto simp: try_events_def butlast_append hd_retry_rounds dest: not_cancel_retry_rounds)
  qed
qed

subsection \<open>\<^verbatim>\<open>do_chattr\<close> and one round of the loop\<close>

lemma do_file_mark_False:
  "do_file_mark pn i False = Some pn' \<Longrightarrow>
     i < length (dir_list pn) \<and> dir_list pn' = unmark_entry (dir_list pn) i \<and>
     marked pn' = (if f_marked (dir_list pn ! i) then marked pn - 1 else marked pn)"
  by (auto simp: do_file_mark_def unmark_entry_def Let_def list_eq_iff_nth_eq nth_list_update
           split: if_splits)

lemma do_chattr_run:
  assumes "do_chattr p m s = Some (r, s')"
  shows "\<exists>evs. trace s' = trace s @ evs \<and>
           try_events p (mask_flags (and_mask s) (or_mask s) m) (ignore_all s) r evs \<and>
           (ignore_all s \<longrightarrow> ignore_all s' \<and> query_res s' = query_res s)"
    and "current_file s' = current_file s"
    and "current_file s < length (dir_list (current_panel s))"
    and "dir_list (current_panel s') = unmark_entry (dir_list (current_panel s)) (current_file s)"
    and "marked (current_panel s') =
           (if f_marked (dir_list (current_panel s) ! current_file s)
            then marked (current_panel s) - 1 else marked (current_panel s))"
    and "same_masks s s'" "g_flags s' = g_flags s"
proof -
  from assms obtain s1 pn
    where tc: "try_chattr p (mask_flags (and_mask s) (or_mask s) m) s = Some (r, s1)"
      and fm: "do_file_mark (current_panel s1) (current_file s1) False = Some pn"
      and s': "s' = s1\<lparr>current_panel := pn\<rparr>"
    by (auto simp: do_chattr_def split: option.splits)
  note fr = try_chattr_frame[OF tc]
  from try_chattr_run[OF tc] s'
  show "\<exists>evs. trace s' = trace s @ evs \<and>
           try_events p (mask_flags (and_mask s) (or_mask s) m) (ignore_all s) r evs \<and>
           (ignore_all s \<longrightarrow> ignore_all s' \<and> query_res s' = query_res s)"
    by simp
  from fr s' show "current_file s' = current_file s" "same_masks s s'" "g_flags s' = g_flags s"
    by (simp_all add: same_masks_def)
  from do_file_mark_False[OF fm] fr s'
  show "current_file s < length (dir_list (current_panel s))"
    "dir_list (current_panel s') = unmark_entry (dir_list (current_panel s)) (current_file s)"
    "marked (current_panel s') =
           (if f_marked (dir_list (current_panel s) ! current_file s)
            then marked (current_panel s) - 1 else marked (current_panel s))"
    by simp_all
qed

lemma apply_mask_body_step:
  assumes "apply_mask_body s = Some (ok, s')"
  shows "body_step s ok s'"
proof -
  from assms obtain fn s1 where nf: "next_file s = Some (fn, s1)"
    by (auto simp: apply_mask_body_def split: option.splits)
  then obtain i where i: "next_marked (dir_list (current_panel s)) (current_file s) = Some i"
    and s1: "s1 = s\<lparr>current_file := i\<rparr>" and fn: "fn = fname (dir_list (current_panel s) ! i)"
    by (auto simp: next_file_def split: option.splits)
  from next_marked_Some[OF i] have mk: "f_marked (dir_list (current_panel s) ! i)" by simp
  show ?thesis
  proof (cases "map_of (disk s) fn")
    case None
    with assms nf s1 obtain pn where fm: "do_file_mark (current_panel s) i False = Some pn"
      and s': "s' = (s1\<lparr>trace := trace s1 @ [EvGetflags fn None]\<rparr>)\<lparr>current_panel := pn\<rparr>"
      and ok: "ok"
      by (auto simp: apply_mask_body_def fgetflags_def split: option.splits)
    from do_file_mark_False[OF fm] mk s' s1 ok None fn i show ?thesis
      by (simp add: body_step_def same_masks_def)
  next
    case (Some m)
    define s2 where "s2 = s1\<lparr>trace := trace s1 @ [EvGetflags fn (Some m)], g_flags := m\<rparr>"
    from assms nf Some s1 have dc: "do_chattr fn m s2 = Some (ok, s')"
      by (auto simp: apply_mask_body_def fgetflags_def s2_def split: option.splits)
    note r = do_chattr_run[OF dc]
    from r(1) obtain evs where evs: "trace s' = trace s2 @ evs"
      "try_events fn (mask_flags (and_mask s2) (or_mask s2) m) (ignore_all s2) ok evs"
      "ignore_all s2 \<longrightarrow> ignore_all s' \<and> query_res s' = query_res s2" by blast
    have "\<exists>evs. trace s' = trace s @ EvGetflags fn (Some m) # evs \<and>
          try_events fn (mask_flags (and_mask s) (or_mask s) m) (ignore_all s) ok evs \<and>
          (ignore_all s \<longrightarrow> ignore_all s' \<and> query_res s' = query_res s)"
      using evs by (intro exI[of _ evs]) (simp add: s2_def s1)
    with r(2-) mk Some i show ?thesis
      by (simp add: body_step_def same_masks_def s2_def s1 fn)
  qed
qed

lemma unmark_entry_props:
  "length (unmark_entry l i) = length l"
  "j \<noteq> i \<Longrightarrow> unmark_entry l i ! j = l ! j"
  "i < length l \<Longrightarrow> \<not> f_marked (unmark_entry l i ! i)"
  by (simp_all add: unmark_entry_def)



subsection \<open>The loop\<close>

lemma chattr_apply_loop_rule [consumes 1, case_names last step]:
  assumes "chattr_apply_loop s = Some s'"
    and "\<And>a ok. apply_mask_body a = Some (ok, s') \<Longrightarrow>
           \<not> (ok \<and> marked (current_panel s') \<noteq> 0) \<Longrightarrow> P a"
    and "\<And>a b. apply_mask_body a = Some (True, b) \<Longrightarrow> marked (current_panel b) \<noteq> 0 \<Longrightarrow>
           chattr_apply_loop b = Some s' \<Longrightarrow> P b \<Longrightarrow> P a"
  shows "P s"
  using assms(1)
proof (induction s rule: chattr_apply_loop.induct)
  case (1 s)
  from "1.prems" obtain ok s1 where b: "apply_mask_body s = Some (ok, s1)"
    by (subst (asm) chattr_apply_loop.simps) (auto split: option.splits)
  show ?case
  proof (cases "ok \<and> marked (current_panel s1) \<noteq> 0")
    case True
    with "1.prems" b have l: "chattr_apply_loop s1 = Some s'"
      by (subst (asm) chattr_apply_loop.simps) simp
    from True b have "P s1" by (intro "1.IH"[OF b refl _ l]) simp_all
    with True b l show ?thesis by (intro assms(3)[of s s1]) simp_all
  next
    case False
    with "1.prems" b have "s1 = s'"
      by (subst (asm) chattr_apply_loop.simps) (simp split: if_splits)
    with False b show ?thesis by (intro assms(2)[of s ok]) simp_all
  qed
qed

lemma body_masked:
  assumes "apply_mask_body s = Some (ok, s')"
  shows "and_mask s' = and_mask s \<and> or_mask s' = or_mask s \<and> disk s' = disk s \<and>
         (\<exists>evs. trace s' = trace s @ evs \<and> evs \<noteq> [] \<and>
                (\<forall>e\<in>set evs. masked_write (disk s) (and_mask s) (or_mask s) e))"
proof -
  from apply_mask_body_step[OF assms] obtain i where
    m: "same_masks s s'" and
    c: "case map_of (disk s) (fname (dir_list (current_panel s) ! i)) of
             None \<Rightarrow>
               ok \<and> trace s' = trace s @ [EvGetflags (fname (dir_list (current_panel s) ! i)) None] \<and>
               ignore_all s' = ignore_all s \<and> query_res s' = query_res s \<and>
               fsetflags_res s' = fsetflags_res s \<and> g_flags s' = g_flags s
           | Some m \<Rightarrow>
               g_flags s' = m \<and>
               (\<exists>evs. trace s' =
                        trace s @ EvGetflags (fname (dir_list (current_panel s) ! i)) (Some m) # evs \<and>
                      try_events (fname (dir_list (current_panel s) ! i))
                        (mask_flags (and_mask s) (or_mask s) m) (ignore_all s) ok evs \<and>
                      (ignore_all s \<longrightarrow> ignore_all s' \<and> query_res s' = query_res s))"
    unfolding body_step_def by blast
  let ?fn = "fname (dir_list (current_panel s) ! i)"
  have "\<exists>evs. trace s' = trace s @ evs \<and> evs \<noteq> [] \<and>
                (\<forall>e\<in>set evs. masked_write (disk s) (and_mask s) (or_mask s) e)"
  proof (cases "map_of (disk s) ?fn")
    case None
    with c show ?thesis by (intro exI[of _ "[EvGetflags ?fn None]"]) simp
  next
    case (Some m)
    with c obtain evs where
      "trace s' = trace s @ EvGetflags ?fn (Some m) # evs"
      "try_events ?fn (mask_flags (and_mask s) (or_mask s) m) (ignore_all s) ok evs"
      by auto
    with Some show ?thesis
      by (intro exI[of _ "EvGetflags ?fn (Some m) # evs"]) (auto simp: try_events_def)
  qed
  with m show ?thesis by (simp add: same_masks_def)
qed

lemma loop_masked:
  assumes "chattr_apply_loop s = Some s'"
  shows "and_mask s' = and_mask s \<and> or_mask s' = or_mask s \<and> disk s' = disk s \<and>
         (\<exists>evs. trace s' = trace s @ evs \<and> evs \<noteq> [] \<and>
                (\<forall>e\<in>set evs. masked_write (disk s) (and_mask s) (or_mask s) e))"
  using assms
proof (induction rule: chattr_apply_loop_rule)
  case (last a ok)
  then show ?case by (simp add: body_masked)
next
  case (step a b)
  from body_masked[OF step(1)] obtain e1 where
    1: "and_mask b = and_mask a" "or_mask b = or_mask a" "disk b = disk a"
       "trace b = trace a @ e1" "e1 \<noteq> []"
       "\<forall>e\<in>set e1. masked_write (disk a) (and_mask a) (or_mask a) e"
    by blast
  from step(4) obtain e2 where
    2: "and_mask s' = and_mask b" "or_mask s' = or_mask b" "disk s' = disk b"
       "trace s' = trace b @ e2"
       "\<forall>e\<in>set e2. masked_write (disk b) (and_mask b) (or_mask b) e"
    by blast
  from 1 2 show ?case
    by (intro conjI exI[of _ "e1 @ e2"]) auto
qed





lemma chattr_apply_mask_cases:
  assumes "chattr_apply_mask p m s = Some s'"
  obtains (abort) "do_chattr p m s = Some (False, s')"
        | (batch) s1 where "do_chattr p m s = Some (True, s1)" "chattr_apply_loop s1 = Some s'"
  using assms by (auto simp: chattr_apply_mask_def split: option.splits if_splits)

lemma bit_mask_flags:
  "bit (mask_flags am om x) n \<longleftrightarrow> (if bit am n \<and> \<not> bit om n then bit x n else bit om n)"
  by (auto simp: mask_flags_def bit_simps)

lemma loop_unmarked:
  assumes "chattr_apply_loop s = Some s'"
  shows "current_file s' < length (dir_list (current_panel s')) \<and>
         \<not> f_marked (dir_list (current_panel s') ! current_file s')"
  using assms
proof (induction rule: chattr_apply_loop_rule)
  case (last a ok)
  from apply_mask_body_step[OF last(1)] obtain i where
    "next_marked (dir_list (current_panel a)) (current_file a) = Some i"
    "current_file s' = i"
    "dir_list (current_panel s') = unmark_entry (dir_list (current_panel a)) i"
    unfolding body_step_def by blast
  with next_marked_Some[of "dir_list (current_panel a)" "current_file a" i]
  show ?case by (simp add: unmark_entry_props)
next
  case (step a b)
  then show ?case by simp
qed

lemma chattr_apply_mask_unmarked:
  assumes "chattr_apply_mask p m s = Some s'"
  shows "current_file s' < length (dir_list (current_panel s')) \<and>
         \<not> f_marked (dir_list (current_panel s') ! current_file s')"
  using assms
proof (cases rule: chattr_apply_mask_cases)
  case abort
  from do_chattr_run(2-4)[OF abort] show ?thesis by (simp add: unmark_entry_props)
next
  case (batch s1)
  then show ?thesis by (simp add: loop_unmarked)
qed

text \<open>
  For the four batch buttons a round of \<^verbatim>\<open>chattr_cmd\<close> is the run of \<^verbatim>\<open>chattr_apply_mask\<close>
  with the masks built from the table: the unmarking after the switch finds the current
  file unmarked, and \<^verbatim>\<open>end_chattr\<close> is set.
\<close>

lemma chattr_cmd_round_batch:
  assumes "b = B_SETALL \<or> b = B_MARKED \<or> b = B_SETMRK \<or> b = B_CLRMRK"
  shows "chattr_cmd_round um b fn s =
     (case build_masks um b (check_attr s) of
        None \<Rightarrow> None
      | Some (am, om) \<Rightarrow>
          (case chattr_apply_mask fn (g_flags s) (s\<lparr>or_mask := om, and_mask := am\<rparr>) of
             None \<Rightarrow> None
           | Some s1 \<Rightarrow> Some (True, True, s1)))"
proof (cases "build_masks um b (check_attr s)")
  case None
  with assms show ?thesis
    by (auto simp: chattr_cmd_round_def chattr_cmd_switch_def)
next
  case (Some ms)
  obtain am om where ms: "ms = (am, om)" by (cases ms)
  show ?thesis
  proof (cases "chattr_apply_mask fn (g_flags s) (s\<lparr>or_mask := om, and_mask := am\<rparr>)")
    case None
    with assms Some ms show ?thesis
      by (auto simp: chattr_cmd_round_def chattr_cmd_switch_def)
  next
    case (Some s1)
    from chattr_apply_mask_unmarked[OF Some]
    have "do_file_mark (current_panel s1) (current_file s1) False = Some (current_panel s1)"
      by (simp add: do_file_mark_def Let_def)
    with assms Some \<open>build_masks um b (check_attr s) = Some ms\<close> ms show ?thesis
      by (auto simp: chattr_cmd_round_def chattr_cmd_switch_def)
  qed
qed

subsection \<open>The batch, file by file\<close>

text \<open>
  \<^verbatim>\<open>next_file\<close> finds the first of the marked entries from the cursor on; once it is
  unmarked, the marked entries from there on are the rest of them.
\<close>

lemma next_marked_eq:
  "next_marked l i = (case marked_from l i of [] \<Rightarrow> None | j # js \<Rightarrow> Some j)"
proof (induction l i rule: next_marked.induct)
  case (1 l i)
  show ?case
  proof (cases "i < length l")
    case True
    then have u: "[i..<length l] = i # [Suc i..<length l]" by (simp add: upt_conv_Cons)
    show ?thesis
    proof (cases "f_marked (l ! i)")
      case m: True
      with True u show ?thesis
        by (subst next_marked.simps) (simp add: marked_from_def)
    next
      case False
      with True u "1.IH" show ?thesis
        by (subst next_marked.simps) (simp add: marked_from_def)
    qed
  next
    case False
    then show ?thesis by (subst next_marked.simps) (simp add: marked_from_def)
  qed
qed

lemma marked_from_Cons:
  assumes "marked_from l i = j # js"
  shows "i \<le> j" "j < length l" "f_marked (l ! j)" "marked_from (unmark_entry l j) j = js"
proof -
  from assms have nm: "next_marked l i = Some j" by (simp add: next_marked_eq)
  from next_marked_Some[OF nm] show ij: "i \<le> j" and jl: "j < length l" and "f_marked (l ! j)"
    by simp_all
  have "[i..<length l] = [i..<j] @ j # [Suc j..<length l]"
    using ij jl by (metis le_add_diff_inverse less_imp_le_nat upt_add_eq_append upt_conv_Cons)
  with assms have f: "filter (\<lambda>k. f_marked (l ! k)) [i..<j] @
      filter (\<lambda>k. f_marked (l ! k)) (j # [Suc j..<length l]) = j # js"
    by (simp add: marked_from_def)
  have "filter (\<lambda>k. f_marked (l ! k)) [i..<j] = []"
  proof (cases "filter (\<lambda>k. f_marked (l ! k)) [i..<j]")
    case Nil
    then show ?thesis .
  next
    case (Cons a as)
    with f have "a = j" by simp
    moreover from Cons have "a \<in> set (filter (\<lambda>k. f_marked (l ! k)) [i..<j])" by simp
    ultimately show ?thesis by simp
  qed
  with f \<open>f_marked (l ! j)\<close> have js: "filter (\<lambda>k. f_marked (l ! k)) [Suc j..<length l] = js"
    by simp
  have "filter (\<lambda>k. f_marked (unmark_entry l j ! k)) [Suc j..<length l] =
        filter (\<lambda>k. f_marked (l ! k)) [Suc j..<length l]"
    by (rule filter_cong) (auto simp: unmark_entry_props)
  with js jl show "marked_from (unmark_entry l j) j = js"
    by (simp add: marked_from_def unmark_entry_props upt_conv_Cons)
qed

text \<open>
  One round of the loop, where the cursor has marked files in front of it; and the loop
  as the batch over these files, where the count of marked files is their number.
\<close>

lemma do_file_mark_unmark_current:
  assumes "current_file s < length (dir_list (current_panel s))"
      and "f_marked (dir_list (current_panel s) ! current_file s)"
  shows "do_file_mark (current_panel s) (current_file s) False =
           Some (current_panel (unmark_current s))"
  using assms by (simp add: do_file_mark_def unmark_current_def unmark_entry_def Let_def)

lemma unmark_current_eq: "s\<lparr>current_panel := current_panel (unmark_current s)\<rparr> = unmark_current s"
  by (simp add: unmark_current_def)

lemma apply_mask_body_eq:
  assumes "marked_from (dir_list (current_panel s)) (current_file s) = j # js"
  shows "apply_mask_body s =
     (let fn = fname (dir_list (current_panel s) ! j) in
        case map_of (disk s) fn of
          None \<Rightarrow>
            Some (True, unmark_current (s\<lparr>current_file := j, trace := trace s @ [EvGetflags fn None]\<rparr>))
        | Some x \<Rightarrow>
            (case try_chattr fn ((x AND and_mask s) OR or_mask s)
                    (s\<lparr>current_file := j, trace := trace s @ [EvGetflags fn (Some x)],
                       g_flags := x\<rparr>) of
               None \<Rightarrow> None
             | Some (ok, s1) \<Rightarrow> Some (ok, unmark_current s1)))"
proof -
  let ?fn = "fname (dir_list (current_panel s) ! j)"
  note mc = marked_from_Cons[OF assms]
  from assms have nf: "next_file s = Some (?fn, s\<lparr>current_file := j\<rparr>)"
    by (simp add: next_file_def next_marked_eq)
  show ?thesis
  proof (cases "map_of (disk s) ?fn")
    case None
    let ?s2 = "s\<lparr>current_file := j, trace := trace s @ [EvGetflags ?fn None]\<rparr>"
    from mc have "do_file_mark (current_panel ?s2) (current_file ?s2) False =
           Some (current_panel (unmark_current ?s2))"
      by (intro do_file_mark_unmark_current) simp_all
    with None nf show ?thesis
      using unmark_current_eq[of ?s2] by (simp add: apply_mask_body_def fgetflags_def)
  next
    case (Some x)
    let ?s2 = "s\<lparr>current_file := j, trace := trace s @ [EvGetflags ?fn (Some x)], g_flags := x\<rparr>"
    have b: "apply_mask_body s = do_chattr ?fn x ?s2"
      using Some nf by (simp add: apply_mask_body_def fgetflags_def)
    show ?thesis
    proof (cases "try_chattr ?fn ((x AND and_mask s) OR or_mask s) ?s2")
      case None
      with Some b show ?thesis by (simp add: do_chattr_def mask_flags_def)
    next
      case (Some r)
      obtain ok s1 where r: "r = (ok, s1)" by (cases r)
      from try_chattr_frame[OF Some[unfolded r]] have
        fr: "current_panel s1 = current_panel s" "current_file s1 = j" by simp_all
      with mc have "do_file_mark (current_panel s1) (current_file s1) False =
           Some (current_panel (unmark_current s1))"
        by (intro do_file_mark_unmark_current) simp_all
      with Some r b \<open>map_of (disk s) ?fn = Some x\<close> show ?thesis
        using unmark_current_eq[of s1] by (simp add: do_chattr_def mask_flags_def)
    qed
  qed
qed

lemma loop_batch_files:
  "marked_from (dir_list (current_panel s)) (current_file s) = j # js \<Longrightarrow>
   marked (current_panel s) = int (length (j # js)) \<Longrightarrow>
   chattr_apply_loop s = batch_files (j # js) s"
proof (induction js arbitrary: j s)
  case Nil
  note b = apply_mask_body_eq[OF Nil(1)]
  let ?fn = "fname (dir_list (current_panel s) ! j)"
  show ?case
  proof (cases "map_of (disk s) ?fn")
    case None
    with b Nil(2) show ?thesis
      by (subst chattr_apply_loop.simps) (simp add: unmark_current_def)
  next
    case (Some x)
    let ?s2 = "s\<lparr>current_file := j, trace := trace s @ [EvGetflags ?fn (Some x)], g_flags := x\<rparr>"
    show ?thesis
    proof (cases "try_chattr ?fn ((x AND and_mask s) OR or_mask s) ?s2")
      case None
      with Some b show ?thesis by (subst chattr_apply_loop.simps) simp
    next
      case (Some r)
      obtain ok s1 where r: "r = (ok, s1)" by (cases r)
      from try_chattr_frame[OF Some[unfolded r]] Nil(2)
      have "marked (current_panel (unmark_current s1)) = 0"
        by (simp add: unmark_current_def)
      with Some r b \<open>map_of (disk s) ?fn = Some x\<close> show ?thesis
        by (subst chattr_apply_loop.simps) simp
    qed
  qed
next
  case (Cons k ks)
  note b = apply_mask_body_eq[OF Cons.prems(1)]
  note mc = marked_from_Cons[OF Cons.prems(1)]
  let ?fn = "fname (dir_list (current_panel s) ! j)"
  show ?case
  proof (cases "map_of (disk s) ?fn")
    case None
    let ?s' = "unmark_current (s\<lparr>current_file := j, trace := trace s @ [EvGetflags ?fn None]\<rparr>)"
    from mc(4) Cons.prems(2) have
      inv: "marked_from (dir_list (current_panel ?s')) (current_file ?s') = k # ks"
           "marked (current_panel ?s') = int (length (k # ks))"
      by (simp_all add: unmark_current_def)
    from inv(2) have nz: "marked (current_panel ?s') \<noteq> 0" by simp
    from b None nz have "chattr_apply_loop s = chattr_apply_loop ?s'"
      by (subst chattr_apply_loop.simps) simp
    also have "\<dots> = batch_files (k # ks) ?s'" using inv by (rule Cons.IH)
    finally show ?thesis using None by (simp del: batch_files.simps add: batch_files.simps(2)[of j])
  next
    case (Some x)
    let ?s2 = "s\<lparr>current_file := j, trace := trace s @ [EvGetflags ?fn (Some x)], g_flags := x\<rparr>"
    show ?thesis
    proof (cases "try_chattr ?fn ((x AND and_mask s) OR or_mask s) ?s2")
      case None
      with Some b show ?thesis by (subst chattr_apply_loop.simps) simp
    next
      case sr: (Some r)
      obtain ok s1 where r: "r = (ok, s1)" by (cases r)
      let ?s' = "unmark_current s1"
      from try_chattr_frame[OF sr[unfolded r]] have
        fr: "current_panel s1 = current_panel s" "current_file s1 = j" by simp_all
      with mc(4) Cons.prems(2) have
        inv: "marked_from (dir_list (current_panel ?s')) (current_file ?s') = k # ks"
             "marked (current_panel ?s') = int (length (k # ks))"
        by (simp_all add: unmark_current_def)
      from inv(2) have nz: "marked (current_panel ?s') \<noteq> 0" by simp
      show ?thesis
      proof (cases ok)
        case True
        from b Some sr r nz True have "chattr_apply_loop s = chattr_apply_loop ?s'"
          by (subst chattr_apply_loop.simps) simp
        also have "\<dots> = batch_files (k # ks) ?s'" using inv by (rule Cons.IH)
        finally show ?thesis using Some sr r True
          by (simp del: batch_files.simps add: batch_files.simps(2)[of j])
      next
        case False
        with b Some sr r show ?thesis
          by (subst chattr_apply_loop.simps) simp
      qed
    qed
  qed
qed

text \<open>
  The whole of \<^verbatim>\<open>chattr_apply_mask\<close> called with the cursor on the first marked file, and
  its run when every write succeeds.
\<close>

lemma length_marked_from:
  assumes "list_all (\<lambda>e. \<not> f_marked e) (take i l)"
  shows "length (filter f_marked l) = length (marked_from l i)"
proof -
  have d: "drop i l = map (nth l) [i..<length l]"
    by (metis drop_map drop_upt map_nth add_0)
  have "filter f_marked l = filter f_marked (take i l) @ filter f_marked (drop i l)"
    by (metis append_take_drop_id filter_append)
  moreover from assms have "filter f_marked (take i l) = []"
    by (simp add: filter_empty_conv list_all_iff)
  ultimately have "length (filter f_marked l) = length (filter f_marked (map (nth l) [i..<length l]))"
    using d by simp
  then show ?thesis by (simp add: marked_from_def filter_map comp_def)
qed

lemma fname_unmark_entry: "fname (unmark_entry l i ! j) = fname (l ! j)"
proof (cases "i < length l")
  case True
  then show ?thesis by (cases "j = i") (simp_all add: unmark_entry_def)
next
  case False
  then show ?thesis by (simp add: unmark_entry_def list_update_beyond)
qed

lemma file_events_cong:
  "(\<And>j. fname (dir_list (current_panel s') ! j) = fname (dir_list (current_panel s) ! j)) \<Longrightarrow>
   disk s' = disk s \<Longrightarrow> and_mask s' = and_mask s \<Longrightarrow> or_mask s' = or_mask s \<Longrightarrow>
   file_events s' = file_events s"
  by (simp add: file_events_def fun_eq_iff Let_def split: option.splits)

lemma batch_files_success:
  "list_all (\<lambda>w. w) (fsetflags_res s) \<Longrightarrow> length js \<le> length (fsetflags_res s) \<Longrightarrow>
   \<exists>s'. batch_files js s = Some s' \<and>
        trace s' = trace s @ concat (map (file_events s) js) \<and>
        marked (current_panel s') = marked (current_panel s) - int (length js)"
proof (induction js arbitrary: s)
  case Nil
  then show ?case by simp
next
  case (Cons j js)
  let ?fn = "fname (dir_list (current_panel s) ! j)"
  show ?case
  proof (cases "map_of (disk s) ?fn")
    case None
    let ?s1 = "unmark_current (s\<lparr>current_file := j, trace := trace s @ [EvGetflags ?fn None]\<rparr>)"
    from Cons.prems have "list_all (\<lambda>w. w) (fsetflags_res ?s1)" "length js \<le> length (fsetflags_res ?s1)"
      by (simp_all add: unmark_current_def)
    from Cons.IH[OF this] obtain s' where
      s': "batch_files js ?s1 = Some s'" "trace s' = trace ?s1 @ concat (map (file_events ?s1) js)"
          "marked (current_panel s') = marked (current_panel ?s1) - int (length js)"
      by blast
    have fe: "file_events ?s1 = file_events s"
      by (rule file_events_cong) (simp_all add: unmark_current_def fname_unmark_entry)
    from None have h: "file_events s j = [EvGetflags ?fn None]"
      by (simp add: file_events_def Let_def)
    from s'(1) s'(2)[unfolded fe] s'(3) None show ?thesis
      by (intro exI[of _ s']) (simp add: h unmark_current_def)
  next
    case (Some x)
    let ?s2 = "s\<lparr>current_file := j, trace := trace s @ [EvGetflags ?fn (Some x)], g_flags := x\<rparr>"
    from Cons.prems obtain ws where ws: "fsetflags_res s = True # ws"
      by (cases "fsetflags_res s") auto
    let ?s3 = "?s2\<lparr>fsetflags_res := ws,
                   trace := trace ?s2 @ [EvSetflags ?fn ((x AND and_mask s) OR or_mask s) True]\<rparr>"
    from ws have tc: "try_chattr ?fn ((x AND and_mask s) OR or_mask s) ?s2 = Some (True, ?s3)"
      by (subst try_chattr_unfold) simp
    let ?s1 = "unmark_current ?s3"
    from Cons.prems ws have "list_all (\<lambda>w. w) (fsetflags_res ?s1)" "length js \<le> length (fsetflags_res ?s1)"
      by (simp_all add: unmark_current_def)
    from Cons.IH[OF this] obtain s' where
      s': "batch_files js ?s1 = Some s'" "trace s' = trace ?s1 @ concat (map (file_events ?s1) js)"
          "marked (current_panel s') = marked (current_panel ?s1) - int (length js)"
      by blast
    have fe: "file_events ?s1 = file_events s"
      by (rule file_events_cong) (simp_all add: unmark_current_def fname_unmark_entry)
    from Some have h: "file_events s j =
        [EvGetflags ?fn (Some x), EvSetflags ?fn ((x AND and_mask s) OR or_mask s) True]"
      by (simp add: file_events_def Let_def)
    from s'(1) s'(2)[unfolded fe] s'(3) Some tc show ?thesis
      by (intro exI[of _ s']) (simp add: h unmark_current_def)
  qed
qed

lemma apply_mask_batch_files:
  assumes mf: "marked_from (dir_list (current_panel s)) (current_file s) = current_file s # js"
      and ne: "js \<noteq> []"
      and cnt: "marked (current_panel s) = int (length (filter f_marked (dir_list (current_panel s))))"
      and beh: "list_all (\<lambda>e. \<not> f_marked e) (take (current_file s) (dir_list (current_panel s)))"
  shows "chattr_apply_mask p m s =
     (case try_chattr p ((m AND and_mask s) OR or_mask s) s of
        None \<Rightarrow> None
      | Some (ret, s1) \<Rightarrow>
          if ret then batch_files js (unmark_current s1) else Some (unmark_current s1))"
proof (cases "try_chattr p ((m AND and_mask s) OR or_mask s) s")
  case None
  then show ?thesis by (simp add: chattr_apply_mask_def do_chattr_def mask_flags_def)
next
  case (Some r)
  obtain ret s1 where r: "r = (ret, s1)" by (cases r)
  note mc = marked_from_Cons[OF mf]
  from try_chattr_frame[OF Some[unfolded r]] have
    fr: "current_panel s1 = current_panel s" "current_file s1 = current_file s" by simp_all
  with mc have "do_file_mark (current_panel s1) (current_file s1) False =
           Some (current_panel (unmark_current s1))"
    by (intro do_file_mark_unmark_current) simp_all
  with Some r have dc: "do_chattr p m s = Some (ret, unmark_current s1)"
    using unmark_current_eq[of s1] by (simp add: do_chattr_def mask_flags_def)
  show ?thesis
  proof (cases ret)
    case False
    with dc Some r show ?thesis by (simp add: chattr_apply_mask_def)
  next
    case True
    from ne obtain k ks where js: "js = k # ks" by (cases js) auto
    from cnt length_marked_from[OF beh] mf
    have c: "marked (current_panel s) = int (Suc (length js))" by simp
    from mc(4) fr js have
      1: "marked_from (dir_list (current_panel (unmark_current s1))) (current_file (unmark_current s1)) = k # ks"
      by (simp add: unmark_current_def)
    from c fr js have 2: "marked (current_panel (unmark_current s1)) = int (length (k # ks))"
      by (simp add: unmark_current_def)
    from loop_batch_files[OF 1 2] dc True Some r js show ?thesis
      by (simp add: chattr_apply_mask_def)
  qed
qed

lemma apply_mask_success:
  assumes mf: "marked_from (dir_list (current_panel s)) (current_file s) = current_file s # js"
      and ne: "js \<noteq> []"
      and cnt: "marked (current_panel s) = int (length (filter f_marked (dir_list (current_panel s))))"
      and beh: "list_all (\<lambda>e. \<not> f_marked e) (take (current_file s) (dir_list (current_panel s)))"
      and ok: "list_all (\<lambda>w. w) (fsetflags_res s)"
      and en: "length js < length (fsetflags_res s)"
  shows "\<exists>s'. chattr_apply_mask p m s = Some s' \<and>
           trace s' = trace s @ EvSetflags p ((m AND and_mask s) OR or_mask s) True #
                        concat (map (file_events s) js) \<and>
           marked (current_panel s') = 0"
proof -
  from ok en obtain ws where ws: "fsetflags_res s = True # ws"
    by (cases "fsetflags_res s") auto
  let ?s1 = "s\<lparr>fsetflags_res := ws,
               trace := trace s @ [EvSetflags p ((m AND and_mask s) OR or_mask s) True]\<rparr>"
  from ws have tc: "try_chattr p ((m AND and_mask s) OR or_mask s) s = Some (True, ?s1)"
    by (subst try_chattr_unfold) simp
  with apply_mask_batch_files[OF mf ne cnt beh, of p m]
  have am: "chattr_apply_mask p m s = batch_files js (unmark_current ?s1)" by simp
  from ok en ws have "list_all (\<lambda>w. w) (fsetflags_res (unmark_current ?s1))"
    "length js \<le> length (fsetflags_res (unmark_current ?s1))"
    by (simp_all add: unmark_current_def)
  from batch_files_success[OF this] obtain s' where
    s': "batch_files js (unmark_current ?s1) = Some s'"
        "trace s' = trace (unmark_current ?s1) @ concat (map (file_events (unmark_current ?s1)) js)"
        "marked (current_panel s') = marked (current_panel (unmark_current ?s1)) - int (length js)"
    by blast
  have fe: "file_events (unmark_current ?s1) = file_events s"
    by (rule file_events_cong) (simp_all add: unmark_current_def fname_unmark_entry)
  from cnt length_marked_from[OF beh] mf
  have c: "marked (current_panel s) = int (Suc (length js))" by simp
  from am s'(1) s'(2)[unfolded fe] s'(3) c show ?thesis
    by (intro exI[of _ s']) (simp add: unmark_current_def)
qed

subsection \<open>Evaluation\<close>

text \<open>The equations that evaluate a run on a given state.\<close>

lemmas run_simps =
  chattr_apply_mask_def chattr_apply_loop.simps apply_mask_body_def do_chattr_def
  try_chattr_unfold next_file_def next_marked.simps fgetflags_def do_file_mark_def
  mask_flags_def Let_def

subsection \<open>Every later file gets the masks on its own flags\<close>

text \<open>
  Claim C1. \<^verbatim>\<open>chattr_cmd\<close> calls \<^verbatim>\<open>chattr_apply_mask\<close> with the cursor on the first marked
  file, more marked files after it (\<open>js\<close>, in order), none before it, and the panel's count
  equal to the number of marked files. From such a state:
  \<^item> the run is the write of the first file through \<^verbatim>\<open>try_chattr\<close> and then, unless that
    returned \<^verbatim>\<open>FALSE\<close>, the batch over every file of \<open>js\<close>: each one is read, and the word
    read for it, masked with \<open>(fresh AND and_mask) OR or_mask\<close>, is what is written to it;
  \<^item> when every write succeeds the run returns, its calls are the write of the first
    file followed, for each file of \<open>js\<close> in turn, by the read of that file and the write
    of its own word masked, and no file is left in the count.

  From any state, after the first file (\<open>s1\<close> is the state when \<^verbatim>\<open>do_chattr\<close> has returned
  \<^verbatim>\<open>TRUE\<close> for it), the masks stay as they were built, every read returns the word of the
  file read, and every word written to a file is \<open>(fresh AND and_mask) OR or_mask\<close> for
  the word \<open>fresh\<close> read for that file. A round of the loop that reads the word \<open>x\<close> of
  the next marked file writes that file next, with \<open>x\<close> masked. So a bit that the masks
  leave alone (set in \<open>and_mask\<close>, not in \<open>or_mask\<close>) keeps the file's own value, and any
  other bit takes the value of \<open>or_mask\<close>, the same for all files.
\<close>

theorem batch_masks_own_flags:
  "(marked_from (dir_list (current_panel s)) (current_file s) = current_file s # js \<and>
    js \<noteq> [] \<and>
    marked (current_panel s) = int (length (filter f_marked (dir_list (current_panel s)))) \<and>
    list_all (\<lambda>e. \<not> f_marked e) (take (current_file s) (dir_list (current_panel s))) \<longrightarrow>
      chattr_apply_mask p m s =
        (case try_chattr p ((m AND and_mask s) OR or_mask s) s of
           None \<Rightarrow> None
         | Some (ret, s1) \<Rightarrow>
             if ret then batch_files js (unmark_current s1) else Some (unmark_current s1)) \<and>
      (list_all (\<lambda>w. w) (fsetflags_res s) \<and> length js < length (fsetflags_res s) \<longrightarrow>
         (\<exists>s'. chattr_apply_mask p m s = Some s' \<and>
               trace s' = trace s @ EvSetflags p ((m AND and_mask s) OR or_mask s) True #
                            concat (map (file_events s) js) \<and>
               marked (current_panel s') = 0))) \<and>
   (do_chattr p m s = Some (True, s1) \<and> chattr_apply_mask p m s = Some s' \<longrightarrow>
      and_mask s' = and_mask s \<and> or_mask s' = or_mask s \<and>
      (\<exists>evs. trace s' = trace s1 @ evs \<and> evs \<noteq> [] \<and>
             (\<forall>e\<in>set evs. masked_write (disk s) (and_mask s) (or_mask s) e))) \<and>
   (next_file t = Some (fn, t1) \<and> map_of (disk t) fn = Some x \<and>
    apply_mask_body t = Some (ok, t') \<longrightarrow>
      (\<exists>w evs. trace t' =
         trace t @ EvGetflags fn (Some x) #
           EvSetflags fn (mask_flags (and_mask t) (or_mask t) x) w # evs)) \<and>
   (\<forall>x n. bit (mask_flags (and_mask s) (or_mask s) x) n \<longleftrightarrow>
            (if bit (and_mask s) n \<and> \<not> bit (or_mask s) n then bit x n
             else bit (or_mask s) n))"
proof (intro conjI impI allI)
  assume h: "marked_from (dir_list (current_panel s)) (current_file s) = current_file s # js \<and>
    js \<noteq> [] \<and>
    marked (current_panel s) = int (length (filter f_marked (dir_list (current_panel s)))) \<and>
    list_all (\<lambda>e. \<not> f_marked e) (take (current_file s) (dir_list (current_panel s)))"
  then show "chattr_apply_mask p m s =
        (case try_chattr p ((m AND and_mask s) OR or_mask s) s of
           None \<Rightarrow> None
         | Some (ret, s1) \<Rightarrow>
             if ret then batch_files js (unmark_current s1) else Some (unmark_current s1))"
    by (intro apply_mask_batch_files) simp_all
  assume "list_all (\<lambda>w. w) (fsetflags_res s) \<and> length js < length (fsetflags_res s)"
  with h show "\<exists>s'. chattr_apply_mask p m s = Some s' \<and>
               trace s' = trace s @ EvSetflags p ((m AND and_mask s) OR or_mask s) True #
                            concat (map (file_events s) js) \<and>
               marked (current_panel s') = 0"
    by (intro apply_mask_success) simp_all
next
  assume a: "do_chattr p m s = Some (True, s1) \<and> chattr_apply_mask p m s = Some s'"
  then have l: "chattr_apply_loop s1 = Some s'"
    by (auto simp: chattr_apply_mask_def)
  from a do_chattr_run(6)[of p m s True s1] have sm: "same_masks s s1" by simp
  from sm loop_masked[OF l] show "and_mask s' = and_mask s" "or_mask s' = or_mask s"
    "\<exists>evs. trace s' = trace s1 @ evs \<and> evs \<noteq> [] \<and>
             (\<forall>e\<in>set evs. masked_write (disk s) (and_mask s) (or_mask s) e)"
    by (simp_all add: same_masks_def)
next
  assume a: "next_file t = Some (fn, t1) \<and> map_of (disk t) fn = Some x \<and>
    apply_mask_body t = Some (ok, t')"
  then have b: "apply_mask_body t = Some (ok, t')" by simp
  from apply_mask_body_step[OF b] a obtain evs where
    e: "trace t' = trace t @ EvGetflags fn (Some x) # evs"
       "try_events fn (mask_flags (and_mask t) (or_mask t) x) (ignore_all t) ok evs"
    by (auto simp: body_step_def next_file_def split: option.splits)
  then obtain w where "evs \<noteq> []"
    "hd evs = EvSetflags fn (mask_flags (and_mask t) (or_mask t) x) w"
    by (auto simp: try_events_def)
  then have "evs = EvSetflags fn (mask_flags (and_mask t) (or_mask t) x) w # tl evs"
    by (cases evs) simp_all
  with e(1) show "\<exists>w evs. trace t' =
         trace t @ EvGetflags fn (Some x) #
           EvSetflags fn (mask_flags (and_mask t) (or_mask t) x) w # evs" by metis
next
  fix x n
  show "bit (mask_flags (and_mask s) (or_mask s) x) n \<longleftrightarrow>
            (if bit (and_mask s) n \<and> \<not> bit (or_mask s) n then bit x n
             else bit (or_mask s) n)"
    by (rule bit_mask_flags)
qed

theorem batch_masks_own_flags_witness:
  "marked_from (dir_list (current_panel (example\<lparr>fsetflags_res := [True, True, True]\<rparr>)))
       (current_file (example\<lparr>fsetflags_res := [True, True, True]\<rparr>)) = [0, 1, 2] \<and>
   chattr_apply_mask ''a'' 0x03 (example\<lparr>fsetflags_res := [True, True, True]\<rparr>) =
     Some (example\<lparr>current_panel :=
        \<lparr>dir_list = [\<lparr>fname = ''a'', f_marked = False\<rparr>,
                     \<lparr>fname = ''b'', f_marked = False\<rparr>,
                     \<lparr>fname = ''c'', f_marked = False\<rparr>],
         marked = 0\<rparr>, current_file := 2, g_flags := 0x80,
        trace := [EvSetflags ''a'' 0x11 True,
                  EvGetflags ''b'' (Some 0x22), EvSetflags ''b'' 0x30 True,
                  EvGetflags ''c'' (Some 0x80), EvSetflags ''c'' 0x90 True]\<rparr>) \<and>
   (\<exists>s'. chattr_apply_mask ''a'' 0x03 (example\<lparr>fsetflags_res := [True, True, True]\<rparr>) = Some s' \<and>
         trace s' = [EvSetflags ''a'' 0x11 True,
                     EvGetflags ''b'' (Some 0x22), EvSetflags ''b'' 0x30 True,
                     EvGetflags ''c'' (Some 0x80), EvSetflags ''c'' 0x90 True] \<and>
         marked (current_panel s') = 0) \<and>
   do_chattr ''a'' 0x03 (example\<lparr>fsetflags_res := [True, True, True]\<rparr>) =
     Some (True, example\<lparr>current_panel :=
        \<lparr>dir_list = [\<lparr>fname = ''a'', f_marked = False\<rparr>,
                     \<lparr>fname = ''b'', f_marked = True\<rparr>,
                     \<lparr>fname = ''c'', f_marked = True\<rparr>],
         marked = 2\<rparr>,
        fsetflags_res := [True, True], trace := [EvSetflags ''a'' 0x11 True]\<rparr>) \<and>
   (\<exists>evs. [EvSetflags ''a'' 0x11 True,
           EvGetflags ''b'' (Some 0x22), EvSetflags ''b'' 0x30 True,
           EvGetflags ''c'' (Some 0x80), EvSetflags ''c'' 0x90 True] =
          [EvSetflags ''a'' (0x11 :: 32 word) True] @ evs \<and> evs \<noteq> [] \<and>
          (\<forall>e\<in>set evs. masked_write [(''a'', 0x03), (''b'', 0x22), (''c'', 0x80)]
                            0xFFFFFFFD 0x10 e)) \<and>
   next_file (example\<lparr>current_panel :=
        \<lparr>dir_list = [\<lparr>fname = ''a'', f_marked = False\<rparr>,
                     \<lparr>fname = ''b'', f_marked = True\<rparr>,
                     \<lparr>fname = ''c'', f_marked = True\<rparr>],
         marked = 2\<rparr>,
        fsetflags_res := [True, True], trace := [EvSetflags ''a'' 0x11 True]\<rparr>) =
     Some (''b'', example\<lparr>current_panel :=
        \<lparr>dir_list = [\<lparr>fname = ''a'', f_marked = False\<rparr>,
                     \<lparr>fname = ''b'', f_marked = True\<rparr>,
                     \<lparr>fname = ''c'', f_marked = True\<rparr>],
         marked = 2\<rparr>, current_file := 1,
        fsetflags_res := [True, True], trace := [EvSetflags ''a'' 0x11 True]\<rparr>) \<and>
   map_of [(''a'', 0x03 :: 32 word), (''b'', 0x22), (''c'', 0x80)] ''b'' = Some 0x22 \<and>
   apply_mask_body (example\<lparr>current_panel :=
        \<lparr>dir_list = [\<lparr>fname = ''a'', f_marked = False\<rparr>,
                     \<lparr>fname = ''b'', f_marked = True\<rparr>,
                     \<lparr>fname = ''c'', f_marked = True\<rparr>],
         marked = 2\<rparr>,
        fsetflags_res := [True, True], trace := [EvSetflags ''a'' 0x11 True]\<rparr>) =
     Some (True, example\<lparr>current_panel :=
        \<lparr>dir_list = [\<lparr>fname = ''a'', f_marked = False\<rparr>,
                     \<lparr>fname = ''b'', f_marked = False\<rparr>,
                     \<lparr>fname = ''c'', f_marked = True\<rparr>],
         marked = 1\<rparr>, current_file := 1, g_flags := 0x22,
        fsetflags_res := [True],
        trace := [EvSetflags ''a'' 0x11 True,
                  EvGetflags ''b'' (Some 0x22), EvSetflags ''b'' 0x30 True]\<rparr>) \<and>
   (\<exists>w evs. [EvSetflags ''a'' 0x11 True,
             EvGetflags ''b'' (Some 0x22), EvSetflags ''b'' 0x30 True] =
            [EvSetflags ''a'' (0x11 :: 32 word) True] @
              EvGetflags ''b'' (Some 0x22) # EvSetflags ''b'' 0x30 w # evs)"
proof -
  let ?s = "example\<lparr>fsetflags_res := [True, True, True]\<rparr>"
  let ?s1 = "example\<lparr>current_panel :=
        \<lparr>dir_list = [\<lparr>fname = ''a'', f_marked = False\<rparr>,
                     \<lparr>fname = ''b'', f_marked = True\<rparr>,
                     \<lparr>fname = ''c'', f_marked = True\<rparr>],
         marked = 2\<rparr>,
        fsetflags_res := [True, True], trace := [EvSetflags ''a'' 0x11 True]\<rparr>"
  let ?s2 = "example\<lparr>current_panel :=
        \<lparr>dir_list = [\<lparr>fname = ''a'', f_marked = False\<rparr>,
                     \<lparr>fname = ''b'', f_marked = False\<rparr>,
                     \<lparr>fname = ''c'', f_marked = True\<rparr>],
         marked = 1\<rparr>, current_file := 1, g_flags := 0x22,
        fsetflags_res := [True],
        trace := [EvSetflags ''a'' 0x11 True,
                  EvGetflags ''b'' (Some 0x22), EvSetflags ''b'' 0x30 True]\<rparr>"
  let ?s' = "example\<lparr>current_panel :=
        \<lparr>dir_list = [\<lparr>fname = ''a'', f_marked = False\<rparr>,
                     \<lparr>fname = ''b'', f_marked = False\<rparr>,
                     \<lparr>fname = ''c'', f_marked = False\<rparr>],
         marked = 0\<rparr>, current_file := 2, g_flags := 0x80,
        trace := [EvSetflags ''a'' 0x11 True,
                  EvGetflags ''b'' (Some 0x22), EvSetflags ''b'' 0x30 True,
                  EvGetflags ''c'' (Some 0x80), EvSetflags ''c'' 0x90 True]\<rparr>"
  have up: "[0..<3] = [0, 1, 2]"
    by (simp add: numeral_3_eq_3)
  have h0: "marked_from (dir_list (current_panel ?s)) (current_file ?s) = [0, 1, 2]"
    by (simp add: example_def marked_from_def up)
  have hb: "marked_from (dir_list (current_panel ?s)) (current_file ?s) = current_file ?s # [1, 2] \<and>
    [1, 2 :: nat] \<noteq> [] \<and>
    marked (current_panel ?s) = int (length (filter f_marked (dir_list (current_panel ?s)))) \<and>
    list_all (\<lambda>e. \<not> f_marked e) (take (current_file ?s) (dir_list (current_panel ?s)))"
    using h0 by (simp add: example_def)
  have hk: "list_all (\<lambda>w. w) (fsetflags_res ?s) \<and> length [1, 2 :: nat] < length (fsetflags_res ?s)"
    by (simp add: example_def)
  have h1: "do_chattr ''a'' 0x03 ?s = Some (True, ?s1)"
    by (simp add: example_def run_simps)
  have h2: "chattr_apply_mask ''a'' 0x03 ?s = Some ?s'"
    by (simp add: example_def run_simps)
  have h3: "next_file ?s1 = Some (''b'', ?s1\<lparr>current_file := 1\<rparr>)"
    by (simp add: example_def next_file_def next_marked.simps)
  have h4: "map_of (disk ?s1) ''b'' = Some 0x22"
    by (simp add: example_def)
  have h5: "apply_mask_body ?s1 = Some (True, ?s2)"
    by (simp add: example_def run_simps)
  note inst = batch_masks_own_flags [where s = "?s" and js = "[1, 2]" and p = "''a''"
      and m = "0x03" and ?s1.0 = "?s1" and s' = "?s'" and t = "?s1" and fn = "''b''"
      and ?t1.0 = "?s1\<lparr>current_file := 1\<rparr>" and x = "0x22" and ok = True and t' = "?s2"]
  from inst hb
  have "chattr_apply_mask ''a'' 0x03 ?s =
        (case try_chattr ''a'' ((0x03 AND and_mask ?s) OR or_mask ?s) ?s of
           None \<Rightarrow> None
         | Some (ret, s1) \<Rightarrow>
             if ret then batch_files [1, 2] (unmark_current s1) else Some (unmark_current s1))"
    by blast
  then have a: "chattr_apply_mask ''a'' 0x03 ?s = Some ?s'"
    by (simp add: example_def try_chattr_unfold unmark_current_def unmark_entry_def Let_def)
  from inst hb hk
  have "\<exists>s'. chattr_apply_mask ''a'' 0x03 ?s = Some s' \<and>
               trace s' = trace ?s @ EvSetflags ''a'' ((0x03 AND and_mask ?s) OR or_mask ?s) True #
                            concat (map (file_events ?s) [1, 2]) \<and>
               marked (current_panel s') = 0"
    by blast
  then have b: "\<exists>s'. chattr_apply_mask ''a'' 0x03 ?s = Some s' \<and>
         trace s' = [EvSetflags ''a'' 0x11 True,
                     EvGetflags ''b'' (Some 0x22), EvSetflags ''b'' 0x30 True,
                     EvGetflags ''c'' (Some 0x80), EvSetflags ''c'' 0x90 True] \<and>
         marked (current_panel s') = 0"
    by (simp add: example_def file_events_def Let_def)
  from inst h1 h2
  have "\<exists>evs. trace ?s' = trace ?s1 @ evs \<and> evs \<noteq> [] \<and>
          (\<forall>e\<in>set evs. masked_write (disk ?s) (and_mask ?s) (or_mask ?s) e)"
    by blast
  then have 1: "\<exists>evs. [EvSetflags ''a'' 0x11 True,
           EvGetflags ''b'' (Some 0x22), EvSetflags ''b'' 0x30 True,
           EvGetflags ''c'' (Some 0x80), EvSetflags ''c'' 0x90 True] =
          [EvSetflags ''a'' (0x11 :: 32 word) True] @ evs \<and> evs \<noteq> [] \<and>
          (\<forall>e\<in>set evs. masked_write [(''a'', 0x03), (''b'', 0x22), (''c'', 0x80)]
                            0xFFFFFFFD 0x10 e)"
    by (simp add: example_def)
  from inst h3 h4 h5
  have "\<exists>w evs. trace ?s2 =
               trace ?s1 @ EvGetflags ''b'' (Some 0x22) #
                 EvSetflags ''b'' (mask_flags (and_mask ?s1) (or_mask ?s1) 0x22) w # evs"
    by blast
  then have 2: "\<exists>w evs. [EvSetflags ''a'' 0x11 True,
             EvGetflags ''b'' (Some 0x22), EvSetflags ''b'' 0x30 True] =
            [EvSetflags ''a'' (0x11 :: 32 word) True] @
              EvGetflags ''b'' (Some 0x22) # EvSetflags ''b'' 0x30 w # evs"
    by (simp add: example_def mask_flags_def)
  have h3': "next_file ?s1 = Some (''b'', example\<lparr>current_panel :=
        \<lparr>dir_list = [\<lparr>fname = ''a'', f_marked = False\<rparr>,
                     \<lparr>fname = ''b'', f_marked = True\<rparr>,
                     \<lparr>fname = ''c'', f_marked = True\<rparr>],
         marked = 2\<rparr>, current_file := 1,
        fsetflags_res := [True, True], trace := [EvSetflags ''a'' 0x11 True]\<rparr>)"
    using h3 by (simp add: example_def)
  have h4': "map_of [(''a'', 0x03 :: 32 word), (''b'', 0x22), (''c'', 0x80)] ''b'' = Some 0x22"
    by simp
  from h0 a b h1 1 h3' h4' h5 2 show ?thesis by blast
qed

subsection \<open>Cancel stops the batch\<close>



subsection \<open>A failed read skips the file\<close>

text \<open>
  Claim C3. When the flags of the next marked file cannot be read, the round of the loop
  returns \<^verbatim>\<open>ok = TRUE\<close>, its only event is the failed read (no prompt, no write, no
  outcome consumed), the file is unmarked and the count decreased, and the loop goes on
  with the next round as long as the count is not 0.
\<close>

theorem read_failure_skips:
  assumes "next_file s = Some (fn, s1)"
      and "map_of (disk s) fn = None"
  shows "\<exists>s'. apply_mask_body s = Some (True, s') \<and>
              trace s' = trace s @ [EvGetflags fn None] \<and>
              query_res s' = query_res s \<and> fsetflags_res s' = fsetflags_res s \<and>
              ignore_all s' = ignore_all s \<and>
              current_file s' = current_file s1 \<and>
              dir_list (current_panel s') =
                (dir_list (current_panel s))[current_file s1 :=
                   (dir_list (current_panel s) ! current_file s1)\<lparr>f_marked := False\<rparr>] \<and>
              \<not> f_marked (dir_list (current_panel s') ! current_file s1) \<and>
              marked (current_panel s') = marked (current_panel s) - 1 \<and>
              chattr_apply_loop s =
                (if marked (current_panel s') \<noteq> 0 then chattr_apply_loop s' else Some s')"
proof -
  from assms(1) obtain i where i: "next_marked (dir_list (current_panel s)) (current_file s) = Some i"
    and s1: "s1 = s\<lparr>current_file := i\<rparr>" and fn: "fn = fname (dir_list (current_panel s) ! i)"
    by (auto simp: next_file_def split: option.splits)
  note nm = next_marked_Some[OF i]
  define pn where "pn = (current_panel s)\<lparr>dir_list := (dir_list (current_panel s))[i :=
      (dir_list (current_panel s) ! i)\<lparr>f_marked := False\<rparr>], marked := marked (current_panel s) - 1\<rparr>"
  define s' where "s' = s\<lparr>current_file := i, trace := trace s @ [EvGetflags fn None],
                           current_panel := pn\<rparr>"
  from nm have fm: "do_file_mark (current_panel s) i False = Some pn"
    by (simp add: do_file_mark_def pn_def Let_def)
  with assms s1 have b: "apply_mask_body s = Some (True, s')"
    by (simp add: apply_mask_body_def fgetflags_def s'_def)
  then have l: "chattr_apply_loop s =
                (if marked (current_panel s') \<noteq> 0 then chattr_apply_loop s' else Some s')"
    by (subst chattr_apply_loop.simps) simp
  from b l nm show ?thesis
    by (intro exI[of _ s']) (simp add: s'_def pn_def s1)
qed

theorem read_failure_skips_witness:
  "next_file (example\<lparr>disk := [(''a'', 0x03), (''c'', 0x80)], fsetflags_res := [True]\<rparr>\<lparr>current_panel :=
        \<lparr>dir_list = [\<lparr>fname = ''a'', f_marked = False\<rparr>,
                     \<lparr>fname = ''b'', f_marked = True\<rparr>,
                     \<lparr>fname = ''c'', f_marked = True\<rparr>],
         marked = 2\<rparr>\<rparr>) =
     Some (''b'', example\<lparr>disk := [(''a'', 0x03), (''c'', 0x80)], fsetflags_res := [True]\<rparr>\<lparr>current_panel :=
        \<lparr>dir_list = [\<lparr>fname = ''a'', f_marked = False\<rparr>,
                     \<lparr>fname = ''b'', f_marked = True\<rparr>,
                     \<lparr>fname = ''c'', f_marked = True\<rparr>],
         marked = 2\<rparr>, current_file := 1\<rparr>) \<and>
   map_of [(''a'', 0x03 :: 32 word), (''c'', 0x80)] ''b'' = None \<and>
   apply_mask_body (example\<lparr>disk := [(''a'', 0x03), (''c'', 0x80)], fsetflags_res := [True]\<rparr>\<lparr>current_panel :=
        \<lparr>dir_list = [\<lparr>fname = ''a'', f_marked = False\<rparr>,
                     \<lparr>fname = ''b'', f_marked = True\<rparr>,
                     \<lparr>fname = ''c'', f_marked = True\<rparr>],
         marked = 2\<rparr>\<rparr>) =
     Some (True, example\<lparr>disk := [(''a'', 0x03), (''c'', 0x80)], fsetflags_res := [True]\<rparr>\<lparr>current_panel :=
        \<lparr>dir_list = [\<lparr>fname = ''a'', f_marked = False\<rparr>,
                     \<lparr>fname = ''b'', f_marked = False\<rparr>,
                     \<lparr>fname = ''c'', f_marked = True\<rparr>],
         marked = 1\<rparr>, current_file := 1, trace := [EvGetflags ''b'' None]\<rparr>) \<and>
   map_option trace (chattr_apply_loop (example\<lparr>disk := [(''a'', 0x03), (''c'', 0x80)], fsetflags_res := [True]\<rparr>\<lparr>current_panel :=
        \<lparr>dir_list = [\<lparr>fname = ''a'', f_marked = False\<rparr>,
                     \<lparr>fname = ''b'', f_marked = True\<rparr>,
                     \<lparr>fname = ''c'', f_marked = True\<rparr>],
         marked = 2\<rparr>\<rparr>)) =
     Some [EvGetflags ''b'' None, EvGetflags ''c'' (Some 0x80), EvSetflags ''c'' 0x90 True]"
proof -
  let ?s = "example\<lparr>disk := [(''a'', 0x03), (''c'', 0x80)], fsetflags_res := [True]\<rparr>\<lparr>current_panel :=
        \<lparr>dir_list = [\<lparr>fname = ''a'', f_marked = False\<rparr>,
                     \<lparr>fname = ''b'', f_marked = True\<rparr>,
                     \<lparr>fname = ''c'', f_marked = True\<rparr>],
         marked = 2\<rparr>\<rparr>"
  have h1: "next_file ?s = Some (''b'', ?s\<lparr>current_file := 1\<rparr>)"
    by (simp add: example_def next_file_def next_marked.simps)
  have h2: "map_of (disk ?s) ''b'' = None"
    by (simp add: example_def)
  from read_failure_skips [OF h1 h2] obtain s' where
    b: "apply_mask_body ?s = Some (True, s')" and
    l: "chattr_apply_loop ?s =
          (if marked (current_panel s') \<noteq> 0 then chattr_apply_loop s' else Some s')"
    by blast
  have b': "apply_mask_body ?s = Some (True, example\<lparr>disk := [(''a'', 0x03), (''c'', 0x80)], fsetflags_res := [True]\<rparr>\<lparr>current_panel :=
        \<lparr>dir_list = [\<lparr>fname = ''a'', f_marked = False\<rparr>,
                     \<lparr>fname = ''b'', f_marked = False\<rparr>,
                     \<lparr>fname = ''c'', f_marked = True\<rparr>],
         marked = 1\<rparr>, current_file := 1, trace := [EvGetflags ''b'' None]\<rparr>)"
    by (simp add: example_def run_simps)
  with b have s': "s' = example\<lparr>disk := [(''a'', 0x03), (''c'', 0x80)], fsetflags_res := [True]\<rparr>\<lparr>current_panel :=
        \<lparr>dir_list = [\<lparr>fname = ''a'', f_marked = False\<rparr>,
                     \<lparr>fname = ''b'', f_marked = False\<rparr>,
                     \<lparr>fname = ''c'', f_marked = True\<rparr>],
         marked = 1\<rparr>, current_file := 1, trace := [EvGetflags ''b'' None]\<rparr>"
    by simp
  from l have "map_option trace (chattr_apply_loop ?s) =
     Some [EvGetflags ''b'' None, EvGetflags ''c'' (Some 0x80), EvSetflags ''c'' 0x90 True]"
    unfolding s' by (simp add: example_def run_simps)
  with h1 h2 b' show ?thesis by (simp add: example_def)
qed

subsection \<open>Ignore all\<close>



subsection \<open>\<^verbatim>\<open>do_chattr\<close> unmarks the file whatever happens\<close>



subsection \<open>The plain Set action\<close>

text \<open>
  The plain Set action with changed flags and more than one marked file, in terms of
  the outcomes of the calls to come; and its run when the write fails \<open>n\<close> times, each
  failure answered with Retry, and then succeeds.
\<close>

lemma enter_unfold:
  assumes "flags_changed u" "1 < marked (current_panel u)"
  shows "chattr_cmd_switch um B_ENTER fn u =
     (case fsetflags_res u of
        [] \<Rightarrow> None
      | w # ws \<Rightarrow>
          if w \<or> ignore_all u then
            Some (B_ENTER, False, True,
                  u\<lparr>fsetflags_res := ws, trace := trace u @ [EvSetflags fn (g_flags u) w]\<rparr>)
          else
            (case query_res u of
               [] \<Rightarrow> None
             | q # qs \<Rightarrow>
                 if q = 0 then
                   Some (B_ENTER, False, True,
                         u\<lparr>fsetflags_res := ws, query_res := qs,
                           trace := trace u @ [EvSetflags fn (g_flags u) w, EvQuery fn q]\<rparr>)
                 else if q = 1 then
                   Some (B_ENTER, False, True,
                         u\<lparr>ignore_all := True, fsetflags_res := ws, query_res := qs,
                           trace := trace u @ [EvSetflags fn (g_flags u) w, EvQuery fn q]\<rparr>)
                 else if q = 2 then
                   chattr_cmd_switch um B_ENTER fn
                     (u\<lparr>fsetflags_res := ws, query_res := qs,
                        trace := trace u @ [EvSetflags fn (g_flags u) w, EvQuery fn q]\<rparr>)
                 else
                   Some (B_CANCEL, True, True,
                         u\<lparr>fsetflags_res := ws, query_res := qs,
                           trace := trace u @ [EvSetflags fn (g_flags u) w, EvQuery fn q]\<rparr>)))"
proof -
  have sw: "chattr_cmd_switch um B_ENTER fn v =
      (case try_chattr fn (g_flags v) v of
         None \<Rightarrow> None
       | Some (ok, v1) \<Rightarrow> Some (if ok then B_ENTER else B_CANCEL, \<not> ok, True, v1))"
    if "flags_changed v" "1 < marked (current_panel v)" for v
    using that by (auto simp: chattr_cmd_switch_def split: option.splits)
  show ?thesis
  proof (cases "fsetflags_res u")
    case Nil
    then show ?thesis
      by (simp add: sw[OF assms] try_chattr_unfold[of fn "g_flags u" u])
  next
    case (Cons w ws)
    show ?thesis
    proof (cases "query_res u")
      case Nil
      with Cons show ?thesis
        by (simp add: sw[OF assms] try_chattr_unfold[of fn "g_flags u" u])
    next
      case (Cons q qs)
      let ?u2 = "u\<lparr>fsetflags_res := ws, query_res := qs,
                   trace := trace u @ [EvSetflags fn (g_flags u) w, EvQuery fn q]\<rparr>"
      from assms have "flags_changed ?u2" "1 < marked (current_panel ?u2)" by simp_all
      from sw[OF this] have u2: "chattr_cmd_switch um B_ENTER fn ?u2 =
        (case try_chattr fn (g_flags u) ?u2 of
           None \<Rightarrow> None
         | Some (ok, v1) \<Rightarrow> Some (if ok then B_ENTER else B_CANCEL, \<not> ok, True, v1))"
        by simp
      from Cons \<open>fsetflags_res u = w # ws\<close> u2 show ?thesis
        by (auto simp: sw[OF assms] try_chattr_unfold[of fn "g_flags u" u])
    qed
  qed
qed

lemma enter_retry_until_success:
  "flags_changed u \<Longrightarrow> 1 < marked (current_panel u) \<Longrightarrow> \<not> ignore_all u \<Longrightarrow>
   fsetflags_res u = replicate n False @ True # ws \<Longrightarrow> query_res u = replicate n 2 @ qs \<Longrightarrow>
   chattr_cmd_switch um B_ENTER fn u =
     Some (B_ENTER, False, True,
           u\<lparr>fsetflags_res := ws, query_res := qs,
             trace := trace u @ retry_rounds fn (g_flags u) n @ [EvSetflags fn (g_flags u) True]\<rparr>)"
proof (induction n arbitrary: u)
  case 0
  then show ?case by (simp add: enter_unfold)
next
  case (Suc n)
  let ?u2 = "u\<lparr>fsetflags_res := replicate n False @ True # ws, query_res := replicate n 2 @ qs,
               trace := trace u @ [EvSetflags fn (g_flags u) False, EvQuery fn 2]\<rparr>"
  from Suc.prems have "chattr_cmd_switch um B_ENTER fn u = chattr_cmd_switch um B_ENTER fn ?u2"
    by (simp add: enter_unfold)
  also from Suc.prems have "\<dots> = Some (B_ENTER, False, True,
           ?u2\<lparr>fsetflags_res := ws, query_res := qs,
             trace := trace ?u2 @ retry_rounds fn (g_flags ?u2) n @ [EvSetflags fn (g_flags ?u2) True]\<rparr>)"
    by (intro Suc.IH) simp_all
  finally show ?case by simp
qed

text \<open>
  Claim C5, as the source has it. The plain Set action (\<^verbatim>\<open>B_ENTER\<close>) reads nothing. With
  changed flags and at most one marked file, it calls \<^verbatim>\<open>fsetflags\<close> once with the flags
  of the dialog; a failure is reported by a message unless \<^verbatim>\<open>ignore_all\<close> is set, and
  is neither prompted for nor retried. With changed flags and more than one marked file,
  it calls \<^verbatim>\<open>fsetflags\<close> with the flags of the dialog; a success, or a failure with
  \<^verbatim>\<open>ignore_all\<close> set, ends the action with no prompt; any other failure prompts, and the
  answer decides: Ignore (0) ends the action, Ignore all (1) ends it with \<^verbatim>\<open>ignore_all\<close>
  set, Retry (2) does the same again from the write on, and any other answer (Cancel)
  ends the command with \<^verbatim>\<open>B_CANCEL\<close>. So \<open>n\<close> failures each answered with Retry and then a
  success make \<open>n + 1\<close> writes and \<open>n\<close> prompts. Without changed flags nothing is written.
\<close>

theorem single_file_apply:
  "(flags_changed s \<and> marked (current_panel s) \<le> 1 \<longrightarrow>
      chattr_cmd_switch um B_ENTER fn s =
        (case fsetflags_res s of
           [] \<Rightarrow> None
         | w # ws \<Rightarrow>
             Some (B_ENTER, True, True,
                   s\<lparr>fsetflags_res := ws,
                     trace := trace s @
                       (if \<not> w \<and> \<not> ignore_all s
                        then [EvSetflags fn (g_flags s) w, EvMessage fn]
                        else [EvSetflags fn (g_flags s) w])\<rparr>))) \<and>
   (flags_changed u \<and> 1 < marked (current_panel u) \<longrightarrow>
      chattr_cmd_switch um B_ENTER fn u =
        (case fsetflags_res u of
           [] \<Rightarrow> None
         | w # ws \<Rightarrow>
             if w \<or> ignore_all u then
               Some (B_ENTER, False, True,
                     u\<lparr>fsetflags_res := ws, trace := trace u @ [EvSetflags fn (g_flags u) w]\<rparr>)
             else
               (case query_res u of
                  [] \<Rightarrow> None
                | q # qs \<Rightarrow>
                    if q = 0 then
                      Some (B_ENTER, False, True,
                            u\<lparr>fsetflags_res := ws, query_res := qs,
                              trace := trace u @ [EvSetflags fn (g_flags u) w, EvQuery fn q]\<rparr>)
                    else if q = 1 then
                      Some (B_ENTER, False, True,
                            u\<lparr>ignore_all := True, fsetflags_res := ws, query_res := qs,
                              trace := trace u @ [EvSetflags fn (g_flags u) w, EvQuery fn q]\<rparr>)
                    else if q = 2 then
                      chattr_cmd_switch um B_ENTER fn
                        (u\<lparr>fsetflags_res := ws, query_res := qs,
                           trace := trace u @ [EvSetflags fn (g_flags u) w, EvQuery fn q]\<rparr>)
                    else
                      Some (B_CANCEL, True, True,
                            u\<lparr>fsetflags_res := ws, query_res := qs,
                              trace := trace u @ [EvSetflags fn (g_flags u) w, EvQuery fn q]\<rparr>)))) \<and>
   (flags_changed t \<and> 1 < marked (current_panel t) \<and> \<not> ignore_all t \<and>
    fsetflags_res t = replicate n False @ True # ws' \<and> query_res t = replicate n 2 @ qs' \<longrightarrow>
      chattr_cmd_switch um B_ENTER fn t =
        Some (B_ENTER, False, True,
              t\<lparr>fsetflags_res := ws', query_res := qs',
                trace := trace t @ retry_rounds fn (g_flags t) n @
                           [EvSetflags fn (g_flags t) True]\<rparr>)) \<and>
   (\<not> flags_changed v \<longrightarrow> chattr_cmd_switch um B_ENTER fn v = Some (B_ENTER, False, True, v))"
proof (intro conjI impI)
  assume "flags_changed s \<and> marked (current_panel s) \<le> 1"
  then show "chattr_cmd_switch um B_ENTER fn s =
        (case fsetflags_res s of
           [] \<Rightarrow> None
         | w # ws \<Rightarrow>
             Some (B_ENTER, True, True,
                   s\<lparr>fsetflags_res := ws,
                     trace := trace s @
                       (if \<not> w \<and> \<not> ignore_all s
                        then [EvSetflags fn (g_flags s) w, EvMessage fn]
                        else [EvSetflags fn (g_flags s) w])\<rparr>))"
    by (auto simp: chattr_cmd_switch_def fsetflags_def message_def split: list.splits)
next
  assume "flags_changed u \<and> 1 < marked (current_panel u)"
  then show "chattr_cmd_switch um B_ENTER fn u =
        (case fsetflags_res u of
           [] \<Rightarrow> None
         | w # ws \<Rightarrow>
             if w \<or> ignore_all u then
               Some (B_ENTER, False, True,
                     u\<lparr>fsetflags_res := ws, trace := trace u @ [EvSetflags fn (g_flags u) w]\<rparr>)
             else
               (case query_res u of
                  [] \<Rightarrow> None
                | q # qs \<Rightarrow>
                    if q = 0 then
                      Some (B_ENTER, False, True,
                            u\<lparr>fsetflags_res := ws, query_res := qs,
                              trace := trace u @ [EvSetflags fn (g_flags u) w, EvQuery fn q]\<rparr>)
                    else if q = 1 then
                      Some (B_ENTER, False, True,
                            u\<lparr>ignore_all := True, fsetflags_res := ws, query_res := qs,
                              trace := trace u @ [EvSetflags fn (g_flags u) w, EvQuery fn q]\<rparr>)
                    else if q = 2 then
                      chattr_cmd_switch um B_ENTER fn
                        (u\<lparr>fsetflags_res := ws, query_res := qs,
                           trace := trace u @ [EvSetflags fn (g_flags u) w, EvQuery fn q]\<rparr>)
                    else
                      Some (B_CANCEL, True, True,
                            u\<lparr>fsetflags_res := ws, query_res := qs,
                              trace := trace u @ [EvSetflags fn (g_flags u) w, EvQuery fn q]\<rparr>)))"
    by (intro enter_unfold) simp_all
next
  assume "flags_changed t \<and> 1 < marked (current_panel t) \<and> \<not> ignore_all t \<and>
    fsetflags_res t = replicate n False @ True # ws' \<and> query_res t = replicate n 2 @ qs'"
  then show "chattr_cmd_switch um B_ENTER fn t =
        Some (B_ENTER, False, True,
              t\<lparr>fsetflags_res := ws', query_res := qs',
                trace := trace t @ retry_rounds fn (g_flags t) n @
                           [EvSetflags fn (g_flags t) True]\<rparr>)"
    by (intro enter_retry_until_success) simp_all
next
  assume "\<not> flags_changed v"
  then show "chattr_cmd_switch um B_ENTER fn v = Some (B_ENTER, False, True, v)"
    by (simp add: chattr_cmd_switch_def)
qed

theorem single_file_apply_witness:
  "flags_changed (example\<lparr>fsetflags_res := [False, True], query_res := [2],
        current_file := 2,
        current_panel :=
          \<lparr>dir_list = [\<lparr>fname = ''a'', f_marked = False\<rparr>,
                       \<lparr>fname = ''b'', f_marked = False\<rparr>,
                       \<lparr>fname = ''c'', f_marked = True\<rparr>],
           marked = 1\<rparr>\<rparr>) \<and>
   marked (current_panel (example\<lparr>fsetflags_res := [False, True], query_res := [2],
        current_file := 2,
        current_panel :=
          \<lparr>dir_list = [\<lparr>fname = ''a'', f_marked = False\<rparr>,
                       \<lparr>fname = ''b'', f_marked = False\<rparr>,
                       \<lparr>fname = ''c'', f_marked = True\<rparr>],
           marked = 1\<rparr>\<rparr>)) \<le> 1 \<and>
   chattr_cmd_switch (0x604B80FF :: 32 word) B_ENTER ''c''
       (example\<lparr>fsetflags_res := [False, True], query_res := [2],
        current_file := 2,
        current_panel :=
          \<lparr>dir_list = [\<lparr>fname = ''a'', f_marked = False\<rparr>,
                       \<lparr>fname = ''b'', f_marked = False\<rparr>,
                       \<lparr>fname = ''c'', f_marked = True\<rparr>],
           marked = 1\<rparr>\<rparr>) =
     Some (B_ENTER, True, True,
           example\<lparr>fsetflags_res := [True], query_res := [2],
             current_file := 2,
             current_panel :=
               \<lparr>dir_list = [\<lparr>fname = ''a'', f_marked = False\<rparr>,
                            \<lparr>fname = ''b'', f_marked = False\<rparr>,
                            \<lparr>fname = ''c'', f_marked = True\<rparr>],
                marked = 1\<rparr>,
             trace := [EvSetflags ''c'' 0x03 False, EvMessage ''c'']\<rparr>) \<and>
   flags_changed (example\<lparr>fsetflags_res := [False, True], query_res := [3, 2]\<rparr>) \<and>
   1 < marked (current_panel (example\<lparr>fsetflags_res := [False, True], query_res := [3, 2]\<rparr>)) \<and>
   chattr_cmd_switch (0x604B80FF :: 32 word) B_ENTER ''a''
       (example\<lparr>fsetflags_res := [False, True], query_res := [3, 2]\<rparr>) =
     Some (B_CANCEL, True, True,
           example\<lparr>fsetflags_res := [True], query_res := [2],
                     trace := [EvSetflags ''a'' 0x03 False, EvQuery ''a'' 3]\<rparr>) \<and>
   \<not> ignore_all (example\<lparr>fsetflags_res := [False, False, True], query_res := [2, 2, 3]\<rparr>) \<and>
   fsetflags_res (example\<lparr>fsetflags_res := [False, False, True], query_res := [2, 2, 3]\<rparr>) =
     replicate 2 False @ True # [] \<and>
   query_res (example\<lparr>fsetflags_res := [False, False, True], query_res := [2, 2, 3]\<rparr>) =
     replicate 2 2 @ [3] \<and>
   chattr_cmd_switch (0x604B80FF :: 32 word) B_ENTER ''a''
       (example\<lparr>fsetflags_res := [False, False, True], query_res := [2, 2, 3]\<rparr>) =
     Some (B_ENTER, False, True,
           example\<lparr>query_res := [3],
                     trace := [EvSetflags ''a'' 0x03 False, EvQuery ''a'' 2,
                               EvSetflags ''a'' 0x03 False, EvQuery ''a'' 2,
                               EvSetflags ''a'' 0x03 True]\<rparr>) \<and>
   \<not> flags_changed (example\<lparr>flags_changed := False\<rparr>) \<and>
   chattr_cmd_switch (0x604B80FF :: 32 word) B_ENTER ''a'' (example\<lparr>flags_changed := False\<rparr>) =
     Some (B_ENTER, False, True, example\<lparr>flags_changed := False\<rparr>)"
proof -
  let ?s = "example\<lparr>fsetflags_res := [False, True], query_res := [2],
        current_file := 2,
        current_panel :=
          \<lparr>dir_list = [\<lparr>fname = ''a'', f_marked = False\<rparr>,
                       \<lparr>fname = ''b'', f_marked = False\<rparr>,
                       \<lparr>fname = ''c'', f_marked = True\<rparr>],
           marked = 1\<rparr>\<rparr>"
  let ?u = "example\<lparr>fsetflags_res := [False, True], query_res := [3, 2]\<rparr>"
  let ?t = "example\<lparr>fsetflags_res := [False, False, True], query_res := [2, 2, 3]\<rparr>"
  let ?v = "example\<lparr>flags_changed := False\<rparr>"
  have hs: "flags_changed ?s \<and> marked (current_panel ?s) \<le> 1" by (simp add: example_def)
  have hu: "flags_changed ?u \<and> 1 < marked (current_panel ?u)" by (simp add: example_def)
  have ht: "flags_changed ?t \<and> 1 < marked (current_panel ?t) \<and> \<not> ignore_all ?t \<and>
    fsetflags_res ?t = replicate 2 False @ True # [] \<and> query_res ?t = replicate 2 2 @ [3]"
    by (simp add: example_def numeral_2_eq_2)
  have hv: "\<not> flags_changed ?v" by (simp add: example_def)
  note inst = single_file_apply
    [where s = "?s" and u = "?u" and t = "?t" and v = "?v" and um = "0x604B80FF"
       and n = 2 and ws' = "[]" and qs' = "[3]"]
  from inst[where fn = "''c''"] hs have 1: "chattr_cmd_switch 0x604B80FF B_ENTER ''c'' ?s =
        (case fsetflags_res ?s of
           [] \<Rightarrow> None
         | w # ws \<Rightarrow>
             Some (B_ENTER, True, True,
                   ?s\<lparr>fsetflags_res := ws,
                     trace := trace ?s @
                       (if \<not> w \<and> \<not> ignore_all ?s
                        then [EvSetflags ''c'' (g_flags ?s) w, EvMessage ''c'']
                        else [EvSetflags ''c'' (g_flags ?s) w])\<rparr>))"
    by blast
  from inst[where fn = "''a''"] hu have 2: "chattr_cmd_switch 0x604B80FF B_ENTER ''a'' ?u =
        (case fsetflags_res ?u of
           [] \<Rightarrow> None
         | w # ws \<Rightarrow>
             if w \<or> ignore_all ?u then
               Some (B_ENTER, False, True,
                     ?u\<lparr>fsetflags_res := ws, trace := trace ?u @ [EvSetflags ''a'' (g_flags ?u) w]\<rparr>)
             else
               (case query_res ?u of
                  [] \<Rightarrow> None
                | q # qs \<Rightarrow>
                    if q = 0 then
                      Some (B_ENTER, False, True,
                            ?u\<lparr>fsetflags_res := ws, query_res := qs,
                              trace := trace ?u @ [EvSetflags ''a'' (g_flags ?u) w, EvQuery ''a'' q]\<rparr>)
                    else if q = 1 then
                      Some (B_ENTER, False, True,
                            ?u\<lparr>ignore_all := True, fsetflags_res := ws, query_res := qs,
                              trace := trace ?u @ [EvSetflags ''a'' (g_flags ?u) w, EvQuery ''a'' q]\<rparr>)
                    else if q = 2 then
                      chattr_cmd_switch 0x604B80FF B_ENTER ''a''
                        (?u\<lparr>fsetflags_res := ws, query_res := qs,
                           trace := trace ?u @ [EvSetflags ''a'' (g_flags ?u) w, EvQuery ''a'' q]\<rparr>)
                    else
                      Some (B_CANCEL, True, True,
                            ?u\<lparr>fsetflags_res := ws, query_res := qs,
                              trace := trace ?u @ [EvSetflags ''a'' (g_flags ?u) w, EvQuery ''a'' q]\<rparr>)))"
    by blast
  from inst[where fn = "''a''"] ht have 3: "chattr_cmd_switch 0x604B80FF B_ENTER ''a'' ?t =
        Some (B_ENTER, False, True,
              ?t\<lparr>fsetflags_res := [], query_res := [3],
                trace := trace ?t @ retry_rounds ''a'' (g_flags ?t) 2 @
                           [EvSetflags ''a'' (g_flags ?t) True]\<rparr>)"
    by blast
  from inst[where fn = "''a''"] hv
  have 4: "chattr_cmd_switch 0x604B80FF B_ENTER ''a'' ?v = Some (B_ENTER, False, True, ?v)"
    by blast
  from 1 2 3 4 hs hu ht hv show ?thesis
    by (simp add: example_def numeral_2_eq_2)
qed

text \<open>
  Claim C5 as stated has the write of a single file retried under the prompt until it
  succeeds or the user gives up. With one marked file the source writes once: here the
  write fails, a Retry answer and a successful second write are there to be had, and the
  command ends after the failed write and a message, with neither taken.
\<close>

theorem single_file_no_retry_counterexample:
  "chattr_cmd_switch (0x604B80FF :: 32 word) B_ENTER ''c''
       (example\<lparr>fsetflags_res := [False, True], query_res := [2],
        current_file := 2,
        current_panel :=
          \<lparr>dir_list = [\<lparr>fname = ''a'', f_marked = False\<rparr>,
                       \<lparr>fname = ''b'', f_marked = False\<rparr>,
                       \<lparr>fname = ''c'', f_marked = True\<rparr>],
           marked = 1\<rparr>\<rparr>) =
     Some (B_ENTER, True, True,
           example\<lparr>fsetflags_res := [True], query_res := [2],
             current_file := 2,
             current_panel :=
               \<lparr>dir_list = [\<lparr>fname = ''a'', f_marked = False\<rparr>,
                            \<lparr>fname = ''b'', f_marked = False\<rparr>,
                            \<lparr>fname = ''c'', f_marked = True\<rparr>],
                marked = 1\<rparr>,
             trace := [EvSetflags ''c'' 0x03 False, EvMessage ''c'']\<rparr>)"
  by (simp add: example_def chattr_cmd_switch_def fsetflags_def message_def)

end
